theory Spec2Isabelle
  imports Complex_Main "HOL-Library.Word"
begin

unbundle bit_operations_syntax

section \<open>Text formatting used by the pipeline\<close>

text \<open>
  Go strings are byte sequences; they are modelled as \<open>string\<close> (a list of 8-bit characters).
  A \<open>float64\<close> is modelled by the exact rational value of a finite double: every finite
  double is a rational, so a statement proved for all rationals holds for all finite doubles.
  NaN, the infinities and the sign of zero are outside the model.
\<close>

text \<open>The character of a decimal digit \<open>d < 10\<close>.\<close>

definition digit_char :: "nat \<Rightarrow> char" where
  "digit_char d = ''0123456789'' ! d"

text \<open>Decimal digits of a natural number, most significant first (\<^verbatim>\<open>%d\<close> of a value \<open>\<ge> 0\<close>).\<close>

function show_nat :: "nat \<Rightarrow> string" where
  "show_nat n = (if n < 10 then [digit_char n] else show_nat (n div 10) @ [digit_char (n mod 10)])"
  by pat_completeness auto
termination
  by (relation "measure (\<lambda>n. n)") auto

declare show_nat.simps [simp del]

text \<open>\<^verbatim>\<open>fmt.Sprintf("%d", n)\<close>.\<close>

definition show_int :: "int \<Rightarrow> string" where
  "show_int i = (if i < 0 then CHR ''-'' # show_nat (nat (- i)) else show_nat (nat i))"

text \<open>
  Rounding of a non-negative exact value to the nearest integer, a tie going to the even
  neighbour: the rule by which Go's \<^verbatim>\<open>strconv\<close> shortens the exact decimal expansion of a float
  to a fixed number of digits.
\<close>

definition round_half_even :: "rat \<Rightarrow> nat" where
  "round_half_even y =
     (let f = nat \<lfloor>y\<rfloor>; r = y - of_int \<lfloor>y\<rfloor>
      in if r < 1 / 2 then f
         else if 1 / 2 < r then f + 1
         else if even f then f else f + 1)"

text \<open>
  \<^verbatim>\<open>fmt.Sprintf("%.2f", x)\<close> for a finite \<open>x\<close>: an optional minus sign, the integer digits,
  a point and exactly two fraction digits of the value rounded to hundredths.
\<close>

definition fmt_2f :: "rat \<Rightarrow> string" where
  "fmt_2f x =
     (let q = round_half_even (\<bar>x\<bar> * 100)
      in (if x < 0 then ''-'' else '''')
         @ show_nat (q div 100) @ ''.''
         @ [digit_char (q mod 100 div 10), digit_char (q mod 10)])"

text \<open>\<^verbatim>\<open>strings.Join(elems, sep)\<close>.\<close>

fun strings_Join :: "string list \<Rightarrow> string \<Rightarrow> string" where
  "strings_Join [] sep = []"
| "strings_Join [e] sep = e"
| "strings_Join (e # e' # es) sep = e @ sep @ strings_Join (e' # es) sep"

text \<open>\<^verbatim>\<open>strings.TrimSuffix(s, suffix)\<close>: \<open>s\<close> without the trailing \<open>suffix\<close>, or \<open>s\<close> itself.\<close>

definition strings_TrimSuffix :: "string \<Rightarrow> string \<Rightarrow> string" where
  "strings_TrimSuffix s suffix =
     (if length suffix \<le> length s \<and> drop (length s - length suffix) s = suffix
      then take (length s - length suffix) s else s)"

section \<open>Lexical path operations (package \<^verbatim>\<open>path/filepath\<close>, Unix)\<close>

text \<open>
  The pipeline names its output with \<^verbatim>\<open>filepath.Ext\<close>, \<^verbatim>\<open>Base\<close>, \<^verbatim>\<open>Dir\<close> and \<^verbatim>\<open>Join\<close> of Go's
  standard library. They are purely lexical; the definitions below follow the library's
  documented algorithms for a system whose separator is \<open>/\<close> and whose paths have no volume
  name.
\<close>

definition is_sep :: "char \<Rightarrow> bool" where
  "is_sep c = (c = CHR ''/'')"

text \<open>
  \<^verbatim>\<open>Ext\<close> walks back from the end of the path to the last separator and returns the suffix
  that starts at the first dot it meets. The walk is over the reversed path, the characters
  passed so far collected in \<open>acc\<close>.
\<close>

fun ext_scan :: "string \<Rightarrow> string \<Rightarrow> string" where
  "ext_scan [] acc = []"
| "ext_scan (c # cs) acc =
     (if is_sep c then [] else if c = CHR ''.'' then c # acc else ext_scan cs (c # acc))"

definition filepath_Ext :: "string \<Rightarrow> string" where
  "filepath_Ext path = ext_scan (rev path) []"

text \<open>
  \<^verbatim>\<open>Base\<close>: the last element of the path, trailing separators removed first; \<open>.\<close> for the empty
  path and \<open>/\<close> for a path of separators only.
\<close>

definition filepath_Base :: "string \<Rightarrow> string" where
  "filepath_Base path =
     (if path = [] then ''.''
      else let stripped = dropWhile is_sep (rev path);
               elem = rev (takeWhile (\<lambda>c. \<not> is_sep c) stripped)
           in if elem = [] then ''/'' else elem)"

text \<open>
  \<^verbatim>\<open>Clean\<close>: the shortest equivalent path. The loop reads the path left to right and writes
  to a buffer \<open>out\<close>; \<open>dotdot\<close> is the length of the prefix of \<open>out\<close> that a \<open>..\<close> element must
  not remove (the leading separator, or leading \<open>..\<close> elements).
\<close>

function back_up :: "string \<Rightarrow> nat \<Rightarrow> nat \<Rightarrow> nat" where
  "back_up out dotdot w =
     (if dotdot < w \<and> \<not> is_sep (out ! w) then back_up out dotdot (w - 1) else w)"
  by pat_completeness auto
termination
  by (relation "measure (\<lambda>(out, dotdot, w). w)") auto

declare back_up.simps [simp del]

function clean_loop :: "string \<Rightarrow> bool \<Rightarrow> string \<Rightarrow> nat \<Rightarrow> string" where
  "clean_loop [] rooted out dotdot = out"
| "clean_loop (c # cs) rooted out dotdot =
     (if is_sep c then clean_loop cs rooted out dotdot
      else if c = CHR ''.'' \<and> (cs = [] \<or> is_sep (hd cs)) then clean_loop cs rooted out dotdot
      else if c = CHR ''.'' \<and> hd cs = CHR ''.'' \<and> (tl cs = [] \<or> is_sep (hd (tl cs))) then
        (if dotdot < length out then
           clean_loop (tl cs) rooted (take (back_up out dotdot (length out - 1)) out) dotdot
         else if \<not> rooted then
           (let out' = (if out \<noteq> [] then out @ ''/'' else out) @ ''..''
            in clean_loop (tl cs) rooted out' (length out'))
         else clean_loop (tl cs) rooted out dotdot)
      else
        (let out' = (if rooted \<and> length out \<noteq> 1 \<or> \<not> rooted \<and> length out \<noteq> 0
                     then out @ ''/'' else out)
         in clean_loop (dropWhile (\<lambda>d. \<not> is_sep d) cs) rooted
              (out' @ c # takeWhile (\<lambda>d. \<not> is_sep d) cs) dotdot))"
  by pat_completeness auto
termination
proof (relation "measure (\<lambda>(p, rooted, out, dotdot). length p)", goal_cases)
  case 1
  show ?case by simp
next
  case (2 c cs rooted out dotdot)
  show ?case by simp
next
  case (3 c cs rooted out dotdot)
  show ?case by simp
next
  case (4 c cs rooted out dotdot)
  then show ?case by (cases cs) auto
next
  case (5 c cs rooted out dotdot x)
  then show ?case by (cases cs) auto
next
  case (6 c cs rooted out dotdot)
  then show ?case by (cases cs) auto
next
  case (7 c cs rooted out dotdot x)
  have "length (dropWhile (\<lambda>d. \<not> is_sep d) cs) \<le> length cs"
    by (rule length_dropWhile_le)
  then show ?case by simp
qed

declare clean_loop.simps [simp del]

definition filepath_Clean :: "string \<Rightarrow> string" where
  "filepath_Clean path =
     (if path = [] then ''.''
      else let rooted = is_sep (hd path);
               out = (if rooted then clean_loop (tl path) rooted ''/'' 1
                      else clean_loop path rooted [] 0)
           in if out = [] then ''.'' else out)"

text \<open>\<^verbatim>\<open>Dir\<close>: everything up to and including the last separator, cleaned.\<close>

definition filepath_Dir :: "string \<Rightarrow> string" where
  "filepath_Dir path = filepath_Clean (rev (dropWhile (\<lambda>c. \<not> is_sep c) (rev path)))"

text \<open>
  \<^verbatim>\<open>Join\<close>: leading empty elements are skipped, the rest is joined with the separator and
  cleaned; the empty string when every element is empty.
\<close>

fun filepath_Join :: "string list \<Rightarrow> string" where
  "filepath_Join [] = []"
| "filepath_Join (e # es) =
     (if e \<noteq> [] then filepath_Clean (strings_Join (e # es) ''/'') else filepath_Join es)"

section \<open>Speech segments and the selection expression\<close>

text \<open>
  A segment as the detector returns it: the start and the end of a stretch of speech, in
  seconds from the start of the file.
\<close>

record Segment =
  SpeechStartAt :: rat
  SpeechEndAt :: rat

text \<open>
  Lines 174 to 179 of the pipeline: one \<open>between\<close> term per segment, in the order of the
  sequence, the terms joined with \<open>+\<close> inside an \<open>aselect\<close> filter that is followed by the
  \<open>asetpts\<close> filter renumbering the presentation timestamps.
\<close>

definition cut :: "Segment \<Rightarrow> string" where
  "cut s = ''between(t,'' @ fmt_2f (SpeechStartAt s) @ '','' @ fmt_2f (SpeechEndAt s) @ '')''"

definition cuts :: "Segment list \<Rightarrow> string list" where
  "cuts segments = map cut segments"

definition filter_expression :: "Segment list \<Rightarrow> string" where
  "filter_expression segments =
     ''aselect='' @ [CHR 0x27] @ strings_Join (cuts segments) ''+'' @ [CHR 0x27]
       @ '',asetpts=N/SR/TB''"

text \<open>Lines 181 to 189: the name of the output file.\<close>

definition output_name :: "string \<Rightarrow> string \<Rightarrow> string \<Rightarrow> string \<Rightarrow> string" where
  "output_name inFile outDir outSuffix outFormat =
     (let ext = filepath_Ext inFile;
          baseName = filepath_Base inFile;
          inDir = filepath_Dir inFile;
          outDir = (if outDir = [] then inDir else outDir)
      in filepath_Join [outDir, strings_TrimSuffix baseName ext @ outSuffix @ ''.'' @ outFormat])"

section \<open>The process state and the external collaborators\<close>

text \<open>
  The default logger of package \<^verbatim>\<open>log/slog\<close> is process-wide state. A logger is described by
  where its text handler writes and by the handler's level option (\<open>None\<close> for \<^verbatim>\<open>nil\<close> options).
\<close>

datatype log_writer = Stderr | Discard

datatype log_level = LevelDebug | LevelInfo | LevelWarn | LevelError

datatype logger = TextLogger log_writer "log_level option"

text \<open>\<^verbatim>\<open>slog.New(slog.NewTextHandler(io.Discard, nil))\<close>, line 156.\<close>

definition discard_logger :: logger where
  "discard_logger = TextLogger Discard None"

text \<open>
  The state a run of the pipeline can change: the default logger, the \<^verbatim>\<open>ffmpeg\<close> command lines
  executed so far, the state \<open>ext\<close> of everything outside the process (the file system, the
  model session of the detector), and the state \<open>sink\<close> owned by whoever supplied the
  callbacks. A callback is a function on \<open>sink\<close>; \<^verbatim>\<open>nil\<close> is \<open>None\<close>.
\<close>

record ('x, 'k) world =
  default_logger :: logger
  commands :: "string list list"
  ext :: 'x
  sink :: 'k

text \<open>\<^verbatim>\<open>speech.DetectorConfig\<close> as lines 140 to 147 fill it.\<close>

record 'k DetectorConfig =
  ModelPath :: string
  SampleRate :: int
  Threshold :: rat
  MinSilenceDurationMs :: int
  SpeechPadMs :: int
  ProgressCallback :: "(rat \<Rightarrow> 'k \<Rightarrow> 'k) option"

text \<open>
  The collaborators are parameters of the model. Each may read and change the external state.
  \<^item> \<open>run_captured args\<close>: \<^verbatim>\<open>ffmpeg\<close> run with its output streams captured apart
    (\<^verbatim>\<open>cmd.Run\<close>): the error text and the standard error text, or the bytes of standard output.
  \<^item> \<open>run_combined args\<close>: \<^verbatim>\<open>ffmpeg\<close> run with \<^verbatim>\<open>cmd.CombinedOutput\<close>: \<open>None\<close> on success,
    else the error text and the combined output.
  \<^item> \<open>new_detector cfg\<close>: \<^verbatim>\<open>speech.NewDetector\<close>: \<open>None\<close> on success, else the error text.
  \<^item> \<open>detect cfg samples lg\<close>: \<^verbatim>\<open>Detect\<close> of a detector built from \<open>cfg\<close>, run while \<open>lg\<close> is
    the default logger: the error text or the segments, the progress values it reports
    through the configured callback, in order, and the default logger it leaves installed.
  \<^item> \<open>destroy cfg\<close>: \<^verbatim>\<open>Destroy\<close> of that detector.
  \<^item> \<open>to_float32\<close>: the conversion of a \<^verbatim>\<open>float64\<close> to \<^verbatim>\<open>float32\<close>; single-precision rounding is
    not modelled.
\<close>

record ('x, 'k) env =
  run_captured :: "string list \<Rightarrow> 'x \<Rightarrow> ((string \<times> string) + 8 word list) \<times> 'x"
  run_combined :: "string list \<Rightarrow> 'x \<Rightarrow> (string \<times> string) option \<times> 'x"
  new_detector :: "'k DetectorConfig \<Rightarrow> 'x \<Rightarrow> string option \<times> 'x"
  detect :: "'k DetectorConfig \<Rightarrow> 32 word list \<Rightarrow> logger \<Rightarrow> 'x
               \<Rightarrow> (string + Segment list) \<times> rat list \<times> logger \<times> 'x"
  destroy :: "'k DetectorConfig \<Rightarrow> 'x \<Rightarrow> 'x"
  to_float32 :: "rat \<Rightarrow> rat"

text \<open>
  A call either returns or panics. The one panic the model knows is the call of a \<^verbatim>\<open>nil\<close>
  function value.
\<close>

datatype 'a outcome = Panic | Done 'a

definition invoke :: "('a \<Rightarrow> 'k \<Rightarrow> 'k) option \<Rightarrow> 'a \<Rightarrow> ('x, 'k) world \<Rightarrow> ('x, 'k) world option" where
  "invoke f a w = (case f of None \<Rightarrow> None | Some g \<Rightarrow> Some (w\<lparr>sink := g a (sink w)\<rparr>))"

fun invoke_each :: "('a \<Rightarrow> 'k \<Rightarrow> 'k) option \<Rightarrow> 'a list \<Rightarrow> ('x, 'k) world \<Rightarrow> ('x, 'k) world option" where
  "invoke_each f [] w = Some w"
| "invoke_each f (a # as) w =
     (case invoke f a w of None \<Rightarrow> None | Some w' \<Rightarrow> invoke_each f as w')"

section \<open>Decoding\<close>

text \<open>
  \<^verbatim>\<open>decodeToFloat32\<close>, lines 75 to 114. A sample is kept as the 32 bits of its \<^verbatim>\<open>float32\<close>;
  \<^verbatim>\<open>binary.Read\<close> takes four bytes, least significant first, reports \<^verbatim>\<open>io.EOF\<close> when none is
  left and an unexpected end when fewer than four are.
\<close>

definition decode_args :: "string \<Rightarrow> int \<Rightarrow> string list" where
  "decode_args inFile sampleRate =
     [''-i'', inFile, ''-f'', ''f32le'', ''-acodec'', ''pcm_f32le'', ''-ac'', ''1'',
      ''-ar'', show_int sampleRate, ''-'']"

definition le32 :: "8 word \<Rightarrow> 8 word \<Rightarrow> 8 word \<Rightarrow> 8 word \<Rightarrow> 32 word" where
  "le32 b0 b1 b2 b3 =
     ucast b0 OR push_bit 8 (ucast b1) OR push_bit 16 (ucast b2) OR push_bit 24 (ucast b3)"

function read_samples :: "nat \<Rightarrow> nat \<Rightarrow> 8 word list \<Rightarrow> 32 word list \<Rightarrow> string + 32 word list" where
  "read_samples i numSamples reader samples =
     (if i < numSamples then
        (case reader of
           b0 # b1 # b2 # b3 # rest \<Rightarrow>
             read_samples (i + 1) numSamples rest (samples[i := le32 b0 b1 b2 b3])
         | [] \<Rightarrow> Inr samples
         | _ \<Rightarrow> Inl (''failed to read sample '' @ show_nat i @ '': unexpected EOF''))
      else Inr samples)"
  by pat_completeness auto
termination
  by (relation "measure (\<lambda>(i, numSamples, reader, samples). numSamples - i)") auto

declare read_samples.simps [simp del]

definition parse_samples :: "8 word list \<Rightarrow> string + 32 word list" where
  "parse_samples data =
     (let numSamples = length data div 4
      in read_samples 0 numSamples data (replicate numSamples 0))"

definition decodeToFloat32 ::
  "('x, 'k) env \<Rightarrow> string \<Rightarrow> int \<Rightarrow> ('x, 'k) world \<Rightarrow> (string + 32 word list) \<times> ('x, 'k) world" where
  "decodeToFloat32 env inFile sampleRate w =
     (let args = decode_args inFile sampleRate;
          (r, x) = run_captured env args (ext w);
          w = w\<lparr>commands := commands w @ [args], ext := x\<rparr>
      in case r of
           Inl (err, stderr) \<Rightarrow>
             (Inl (''ffmpeg decode error: '' @ err @ '', stderr: '' @ stderr), w)
         | Inr data \<Rightarrow> (parse_samples data, w))"

section \<open>The pipeline for one file\<close>

definition detector_config ::
  "rat \<Rightarrow> int \<Rightarrow> int \<Rightarrow> (rat \<Rightarrow> 'k \<Rightarrow> 'k) option \<Rightarrow> 'k DetectorConfig" where
  "detector_config threshold minSilenceDuration padMs progressCallback =
     \<lparr>ModelPath = ''./silero_vad.onnx'', SampleRate = 16000, Threshold = threshold,
      MinSilenceDurationMs = minSilenceDuration, SpeechPadMs = padMs,
      ProgressCallback = progressCallback\<rparr>"

definition NewDetector ::
  "('x, 'k) env \<Rightarrow> 'k DetectorConfig \<Rightarrow> ('x, 'k) world \<Rightarrow> string option \<times> ('x, 'k) world" where
  "NewDetector env cfg w = (let (e, x) = new_detector env cfg (ext w) in (e, w\<lparr>ext := x\<rparr>))"

text \<open>
  The detector calls the configured progress callback once for each value it reports; a
  \<^verbatim>\<open>nil\<close> callback would be called as it is.
\<close>

definition Detect ::
  "('x, 'k) env \<Rightarrow> 'k DetectorConfig \<Rightarrow> 32 word list \<Rightarrow> ('x, 'k) world
     \<Rightarrow> (string + Segment list) outcome \<times> ('x, 'k) world" where
  "Detect env sd samples w =
     (let (r, progress, lg, x) = detect env sd samples (default_logger w) (ext w);
          w = w\<lparr>default_logger := lg, ext := x\<rparr>
      in case invoke_each (ProgressCallback sd) progress w of
           None \<Rightarrow> (Panic, w)
         | Some w \<Rightarrow> (Done r, w))"

definition Destroy :: "('x, 'k) env \<Rightarrow> 'k DetectorConfig \<Rightarrow> ('x, 'k) world \<Rightarrow> ('x, 'k) world" where
  "Destroy env sd w = w\<lparr>ext := destroy env sd (ext w)\<rparr>"

definition export_args :: "string \<Rightarrow> string \<Rightarrow> string \<Rightarrow> string list" where
  "export_args inFile af outName = [''-y'', ''-i'', inFile, ''-vn'', ''-af'', af, outName]"

definition run_export ::
  "('x, 'k) env \<Rightarrow> string list \<Rightarrow> ('x, 'k) world \<Rightarrow> (string \<times> string) option \<times> ('x, 'k) world" where
  "run_export env args w =
     (let (r, x) = run_combined env args (ext w)
      in (r, w\<lparr>commands := commands w @ [args], ext := x\<rparr>))"

text \<open>
  Lines 153 to 210 of \<^verbatim>\<open>CondenseWithOptions\<close>: what runs between the creation of the detector
  and its deferred \<^verbatim>\<open>Destroy\<close>. The result is the error the function returns (\<open>None\<close> for
  \<^verbatim>\<open>nil\<close>). Calls of the logging functions write to the handler of the default logger and
  change none of the state above; they are left out.
\<close>

definition detect_and_export ::
  "('x, 'k) env \<Rightarrow> 'k DetectorConfig \<Rightarrow> string \<Rightarrow> string \<Rightarrow> string \<Rightarrow> string
     \<Rightarrow> (string \<Rightarrow> 'k \<Rightarrow> 'k) option \<Rightarrow> 32 word list \<Rightarrow> ('x, 'k) world
     \<Rightarrow> string option outcome \<times> ('x, 'k) world" where
  "detect_and_export env sd inFile outDir outSuffix outFormat statusCallback samples w =
     (let originalDefault = default_logger w;
          w = w\<lparr>default_logger := discard_logger\<rparr>
      in case Detect env sd samples w of
           (Panic, w) \<Rightarrow> (Panic, w)
         | (Done r, w) \<Rightarrow>
             (let w = w\<lparr>default_logger := originalDefault\<rparr>
              in case r of
                   Inl err \<Rightarrow> (Done (Some (''speech detection failed: '' @ err)), w)
                 | Inr segments \<Rightarrow>
                     if length segments = 0
                     then (Done (Some (''no speech detected in file: '' @ inFile)), w)
                     else
                       (let af = filter_expression segments;
                            outName = output_name inFile outDir outSuffix outFormat
                        in case invoke statusCallback ''exporting'' w of
                             None \<Rightarrow> (Panic, w)
                           | Some w \<Rightarrow>
                               (case run_export env (export_args inFile af outName) w of
                                  (Some (err, output), w) \<Rightarrow>
                                    (Done (Some (''ffmpeg error: '' @ err @ '', output: '' @ output)), w)
                                | (None, w) \<Rightarrow> (Done None, w)))))"

text \<open>Lines 125 to 130: a \<^verbatim>\<open>nil\<close> callback is replaced by one that does nothing.\<close>

definition or_noop :: "('a \<Rightarrow> 'k \<Rightarrow> 'k) option \<Rightarrow> ('a \<Rightarrow> 'k \<Rightarrow> 'k) option" where
  "or_noop callback = (case callback of None \<Rightarrow> Some (\<lambda>a k. k) | Some f \<Rightarrow> Some f)"

text \<open>\<^verbatim>\<open>CondenseWithOptions\<close>, lines 119 to 211.\<close>

definition CondenseWithOptions ::
  "('x, 'k) env \<Rightarrow> string \<Rightarrow> string \<Rightarrow> string \<Rightarrow> string \<Rightarrow> rat \<Rightarrow> int \<Rightarrow> int
     \<Rightarrow> (rat \<Rightarrow> 'k \<Rightarrow> 'k) option \<Rightarrow> (string \<Rightarrow> 'k \<Rightarrow> 'k) option \<Rightarrow> ('x, 'k) world
     \<Rightarrow> string option outcome \<times> ('x, 'k) world" where
  "CondenseWithOptions env inFile outDir outSuffix outFormat threshold minSilenceDuration padMs
       progressCallback statusCallback w =
     (let progressCallback = or_noop progressCallback;
          statusCallback = or_noop statusCallback
      in case invoke statusCallback ''loading'' w of
           None \<Rightarrow> (Panic, w)
         | Some w \<Rightarrow>
             (case decodeToFloat32 env inFile 16000 w of
                (Inl err, w) \<Rightarrow> (Done (Some (''failed to decode audio file: '' @ err)), w)
              | (Inr samples, w) \<Rightarrow>
                  (case invoke statusCallback ''detecting'' w of
                     None \<Rightarrow> (Panic, w)
                   | Some w \<Rightarrow>
                       (let cfg = detector_config threshold minSilenceDuration padMs
                                    progressCallback
                        in case NewDetector env cfg w of
                             (Some err, w) \<Rightarrow>
                               (Done (Some (''failed to create speech detector: '' @ err)), w)
                           | (None, w) \<Rightarrow>
                               (let (r, w) = detect_and_export env cfg inFile outDir outSuffix
                                               outFormat statusCallback samples w
                                in (r, Destroy env cfg w))))))"

section \<open>The batch\<close>

record CondenseProgress =
  FilePath :: string
  Status :: string
  Error :: string

record CondenseOptions =
  OutputSuffix :: string
  OutputDir :: string
  OutputFormat :: string
  VadThreshold :: rat
  MinSilenceDuration :: int
  SpeechPaddingMs :: int

text \<open>
  \<^verbatim>\<open>runtime.EventsEmit\<close> delivers an event, a name and its payload, to the front end. The
  events delivered so far are the state the batch's callbacks own.
\<close>

type_synonym events = "(string \<times> CondenseProgress) list"

definition EventsEmit :: "string \<Rightarrow> CondenseProgress \<Rightarrow> events \<Rightarrow> events" where
  "EventsEmit name data delivered = delivered @ [(name, data)]"

text \<open>\<^verbatim>\<open>App.CondenseFiles\<close>, lines 53 to 101: the loop over the file paths.\<close>

fun CondenseFiles ::
  "('x, events) env \<Rightarrow> string list \<Rightarrow> CondenseOptions \<Rightarrow> ('x, events) world
     \<Rightarrow> unit outcome \<times> ('x, events) world" where
  "CondenseFiles env [] options w = (Done (), w)"
| "CondenseFiles env (filePath # rest) options w =
     (let w = w\<lparr>sink := EventsEmit ''condense:progress''
                  \<lparr>FilePath = filePath, Status = ''pending'', Error = ''''\<rparr> (sink w)\<rparr>;
          statusCallback = (\<lambda>status. EventsEmit ''condense:progress''
                              \<lparr>FilePath = filePath, Status = status, Error = ''''\<rparr>)
      in case CondenseWithOptions env filePath (OutputDir options) (OutputSuffix options)
                (OutputFormat options) (to_float32 env (VadThreshold options))
                (MinSilenceDuration options) (SpeechPaddingMs options) None
                (Some statusCallback) w of
           (Panic, w) \<Rightarrow> (Panic, w)
         | (Done err, w) \<Rightarrow>
             (let status = (case err of None \<Rightarrow> ''completed'' | Some e \<Rightarrow> ''error'');
                  errMsg = (case err of None \<Rightarrow> '''' | Some e \<Rightarrow> e);
                  w = w\<lparr>sink := EventsEmit ''condense:progress''
                          \<lparr>FilePath = filePath, Status = status, Error = errMsg\<rparr> (sink w)\<rparr>
              in CondenseFiles env rest options w))"

section \<open>Reading the selection expression\<close>

text \<open>
  The expression is text for the encoder's filter graph. To say which times it selects, the
  text is read back the way the encoder's expression language reads it: \<open>aselect\<close> keeps a
  sample when its expression is not zero, \<open>+\<close> adds, and \<open>between(t,lo,hi)\<close> is 1 when
  \<open>lo \<le> t \<le> hi\<close> and 0 otherwise.
\<close>

definition digit_val :: "char \<Rightarrow> nat" where
  "digit_val c = of_char c - 48"

definition read_nat :: "string \<Rightarrow> nat" where
  "read_nat ds = foldl (\<lambda>acc c. 10 * acc + digit_val c) 0 ds"

definition read_decimal :: "string \<Rightarrow> rat" where
  "read_decimal s =
     (let neg = (take 1 s = ''-'');
          body = (if neg then drop 1 s else s);
          ip = takeWhile (\<lambda>c. c \<noteq> CHR ''.'') body;
          fp = drop 1 (dropWhile (\<lambda>c. c \<noteq> CHR ''.'') body);
          v = of_nat (read_nat ip) + of_nat (read_nat fp) / 10 ^ length fp
      in if neg then - v else v)"

fun split_on :: "char \<Rightarrow> string \<Rightarrow> string list" where
  "split_on c [] = [[]]"
| "split_on c (x # xs) =
     (if x = c then [] # split_on c xs
      else (case split_on c xs of [] \<Rightarrow> [[x]] | y # ys \<Rightarrow> (x # y) # ys))"

text \<open>A term \<open>between(t,lo,hi)\<close> as the pair of its bounds.\<close>

definition parse_between :: "string \<Rightarrow> rat \<times> rat" where
  "parse_between term =
     (let args = split_on (CHR '','') (take (length term - 11) (drop 10 term))
      in (read_decimal (args ! 0), read_decimal (args ! 1)))"

text \<open>The terms of the sum inside \<open>aselect='...'\<close>, the \<open>asetpts\<close> filter after it cut off.\<close>

definition parse_filter :: "string \<Rightarrow> (rat \<times> rat) list" where
  "parse_filter af =
     map parse_between (split_on (CHR ''+'') (take (length af - 26) (drop 9 af)))"

definition between :: "rat \<Rightarrow> rat \<Rightarrow> rat \<Rightarrow> rat" where
  "between x lo hi = (if lo \<le> x \<and> x \<le> hi then 1 else 0)"

definition aselect_value :: "(rat \<times> rat) list \<Rightarrow> rat \<Rightarrow> rat" where
  "aselect_value terms t = sum_list (map (\<lambda>(lo, hi). between t lo hi) terms)"

definition keeps :: "string \<Rightarrow> rat \<Rightarrow> bool" where
  "keeps af t = (aselect_value (parse_filter af) t \<noteq> 0)"

text \<open>A text whose part from the first point on is the point and exactly two digits.\<close>

definition digits :: "char set" where
  "digits = set ''0123456789''"

definition two_decimals :: "string \<Rightarrow> bool" where
  "two_decimals s =
     (case dropWhile (\<lambda>c. c \<noteq> CHR ''.'') s of
        [p, a, b] \<Rightarrow> a \<in> digits \<and> b \<in> digits
      | _ \<Rightarrow> False)"

text \<open>The value a time is serialized as: the nearest hundredth, a tie to the even one.\<close>

definition hundredths :: "rat \<Rightarrow> rat" where
  "hundredths x = (if x < 0 then - 1 else 1) * of_nat (round_half_even (\<bar>x\<bar> * 100)) / 100"

section \<open>Notions of the specification\<close>

definition sorted_by_start :: "Segment list \<Rightarrow> bool" where
  "sorted_by_start segs = sorted (map SpeechStartAt segs)"

fun non_overlapping :: "Segment list \<Rightarrow> bool" where
  "non_overlapping [] = True"
| "non_overlapping [s] = True"
| "non_overlapping (p # s # rest) =
     (SpeechEndAt p \<le> SpeechStartAt s \<and> non_overlapping (s # rest))"

text \<open>
  The validator of the specification, in the specification's words: sort by start, then,
  going through the sequence, merge a segment that starts before the previous one ends
  with it into one segment from the smaller start to the larger end. The source has no
  such function; \<open>spec_normalize\<close> is what the claims about it are compared with.
\<close>

fun spec_merge :: "Segment list \<Rightarrow> Segment list" where
  "spec_merge [] = []"
| "spec_merge [s] = [s]"
| "spec_merge (p # s # rest) =
     (if SpeechStartAt s < SpeechEndAt p
      then spec_merge (\<lparr>SpeechStartAt = min (SpeechStartAt p) (SpeechStartAt s),
                        SpeechEndAt = max (SpeechEndAt p) (SpeechEndAt s)\<rparr> # rest)
      else p # spec_merge (s # rest))"

definition spec_normalize :: "Segment list \<Rightarrow> Segment list" where
  "spec_normalize segs = spec_merge (sort_key SpeechStartAt segs)"

text \<open>The times inside some segment of a sequence: the union of its intervals.\<close>

definition covered :: "Segment list \<Rightarrow> rat set" where
  "covered segs = (\<Union>s\<in>set segs. {SpeechStartAt s .. SpeechEndAt s})"

section \<open>Paths as sequences of elements\<close>

text \<open>
  What the lexical path operations compute, said on the elements of a path, the non-empty
  texts between its separators, after the rules in the documentation of \<^verbatim>\<open>filepath.Clean\<close>:
  separators are single, a \<open>.\<close> element is dropped, a \<open>..\<close> element removes the element before
  it that is not itself \<open>..\<close>, a \<open>..\<close> element at the start of a rooted path is dropped, and one
  at the start of a path that is not rooted is kept.
\<close>

definition elements :: "string \<Rightarrow> string list" where
  "elements path = filter (\<lambda>e. e \<noteq> []) (split_on (CHR ''/'') path)"

definition is_rooted :: "string \<Rightarrow> bool" where
  "is_rooted path = (path \<noteq> [] \<and> is_sep (hd path))"

definition resolve :: "bool \<Rightarrow> string list \<Rightarrow> string \<Rightarrow> string list" where
  "resolve rooted st e =
     (if e = ''.'' then st
      else if e = ''..'' then
        (if st \<noteq> [] \<and> last st \<noteq> ''..'' then butlast st
         else if rooted then st
         else st @ [e])
      else st @ [e])"

definition render :: "bool \<Rightarrow> string list \<Rightarrow> string" where
  "render rooted st =
     (let out = (if rooted then ''/'' else '''') @ strings_Join st ''/''
      in if out = [] then ''.'' else out)"

text \<open>
  The path \<open>{dir}/{name}\<close> of the specification: the elements of \<open>dir\<close> followed by those of
  \<open>name\<close>, resolved, rooted when \<open>dir\<close> is.
\<close>

definition lexical_join :: "string \<Rightarrow> string \<Rightarrow> string" where
  "lexical_join dir name =
     render (is_rooted dir)
       (foldl (resolve (is_rooted dir)) [] (elements dir @ elements name))"

text \<open>
  An element that names an entry of a directory, and a path that is written the short way
  already: elements of that kind only, at least one, single separators between them and none
  at the end.
\<close>

definition plain :: "string \<Rightarrow> bool" where
  "plain e = (e \<noteq> [] \<and> CHR ''/'' \<notin> set e \<and> e \<noteq> ''.'' \<and> e \<noteq> ''..'')"

definition plain_path :: "string \<Rightarrow> bool" where
  "plain_path path =
     (elements path \<noteq> [] \<and> list_all plain (elements path)
      \<and> path = (if is_rooted path then ''/'' else '''') @ strings_Join (elements path) ''/'')"

text \<open>A file name without its extension: without its last dot and what follows it.\<close>

definition without_extension :: "string \<Rightarrow> string" where
  "without_extension name =
     (if CHR ''.'' \<in> set name
      then rev (tl (dropWhile (\<lambda>c. c \<noteq> CHR ''.'') (rev name)))
      else name)"

section \<open>Observing a run\<close>

text \<open>
  What the detector returns in a run of the pipeline on \<open>inFile\<close> that starts in the external
  state \<open>x\<close>: \<open>None\<close> when the run ends before the detection step (the decoding fails, or the
  detector cannot be created).
\<close>

definition detector_output ::
  "('x, 'k) env \<Rightarrow> string \<Rightarrow> rat \<Rightarrow> int \<Rightarrow> int \<Rightarrow> (rat \<Rightarrow> 'k \<Rightarrow> 'k) option \<Rightarrow> 'x
     \<Rightarrow> (string + Segment list) option" where
  "detector_output env inFile threshold minSilenceDuration padMs progressCallback x =
     (case run_captured env (decode_args inFile 16000) x of
        (Inl e, x1) \<Rightarrow> None
      | (Inr data, x1) \<Rightarrow>
          (case parse_samples data of
             Inl e \<Rightarrow> None
           | Inr samples \<Rightarrow>
               (let cfg = detector_config threshold minSilenceDuration padMs
                            (or_noop progressCallback)
                in case new_detector env cfg x1 of
                     (Some e, x2) \<Rightarrow> None
                   | (None, x2) \<Rightarrow> Some (fst (detect env cfg samples discard_logger x2)))))"

text \<open>The argument that follows \<open>-af\<close> in an export command line.\<close>

definition filter_argument :: "string list \<Rightarrow> string" where
  "filter_argument args = args ! 5"

text \<open>The events of one file, as the batch emits them.\<close>

definition progress_event :: "string \<Rightarrow> string \<Rightarrow> string \<Rightarrow> string \<times> CondenseProgress" where
  "progress_event filePath status err =
     (''condense:progress'', \<lparr>FilePath = filePath, Status = status, Error = err\<rparr>)"

definition is_terminal :: "string \<times> CondenseProgress \<Rightarrow> bool" where
  "is_terminal e = (Status (snd e) = ''completed'' \<or> Status (snd e) = ''error'')"

text \<open>
  The event sequences a job may show: the stages in their order up to the one that fails,
  then the terminal event.
\<close>

definition is_job_trace :: "string \<Rightarrow> events \<Rightarrow> bool" where
  "is_job_trace f tr =
     (tr \<noteq> [] \<and>
      (let msg = Error (snd (last tr)) in
         tr = [progress_event f ''pending'' '''', progress_event f ''loading'' '''',
               progress_event f ''error'' msg]
       \<or> tr = [progress_event f ''pending'' '''', progress_event f ''loading'' '''',
               progress_event f ''detecting'' '''', progress_event f ''error'' msg]
       \<or> tr = [progress_event f ''pending'' '''', progress_event f ''loading'' '''',
               progress_event f ''detecting'' '''', progress_event f ''exporting'' '''',
               progress_event f ''error'' msg]
       \<or> tr = [progress_event f ''pending'' '''', progress_event f ''loading'' '''',
               progress_event f ''detecting'' '''', progress_event f ''exporting'' '''',
               progress_event f ''completed'' '''']))"

text \<open>
  How a run of the pipeline on \<open>inFile\<close> ends, read from the results of the collaborators
  alone: the stage during which the first of them fails, with the error the pipeline returns
  for it, or \<open>Completed\<close> when none fails. An empty detection result counts as a failure of the
  detecting stage. The second component is the external state the run leaves.
\<close>

datatype run_end = FailedLoading string | FailedDetecting string | FailedExporting string
  | Completed

definition stage_results ::
  "('x, 'k) env \<Rightarrow> string \<Rightarrow> string \<Rightarrow> string \<Rightarrow> string \<Rightarrow> rat \<Rightarrow> int \<Rightarrow> int
     \<Rightarrow> (rat \<Rightarrow> 'k \<Rightarrow> 'k) option \<Rightarrow> 'x \<Rightarrow> run_end \<times> 'x" where
  "stage_results env inFile outDir outSuffix outFormat threshold minSilenceDuration padMs
       progressCallback x =
     (case run_captured env (decode_args inFile 16000) x of
        (Inl (err, stderr), x1) \<Rightarrow>
          (FailedLoading (''failed to decode audio file: ffmpeg decode error: '' @ err
                            @ '', stderr: '' @ stderr), x1)
      | (Inr data, x1) \<Rightarrow>
          (case parse_samples data of
             Inl err \<Rightarrow> (FailedLoading (''failed to decode audio file: '' @ err), x1)
           | Inr samples \<Rightarrow>
               (let cfg = detector_config threshold minSilenceDuration padMs
                            (or_noop progressCallback)
                in case new_detector env cfg x1 of
                     (Some err, x2) \<Rightarrow>
                       (FailedDetecting (''failed to create speech detector: '' @ err), x2)
                   | (None, x2) \<Rightarrow>
                       (case detect env cfg samples discard_logger x2 of
                          (Inl err, progress, lg, x3) \<Rightarrow>
                            (FailedDetecting (''speech detection failed: '' @ err),
                             destroy env cfg x3)
                        | (Inr segments, progress, lg, x3) \<Rightarrow>
                            if segments = []
                            then (FailedDetecting (''no speech detected in file: '' @ inFile),
                                  destroy env cfg x3)
                            else
                              (case run_combined env
                                      (export_args inFile (filter_expression segments)
                                         (output_name inFile outDir outSuffix outFormat)) x3 of
                                 (Some (err, output), x4) \<Rightarrow>
                                   (FailedExporting (''ffmpeg error: '' @ err @ '', output: ''
                                                       @ output),
                                    destroy env cfg x4)
                               | (None, x4) \<Rightarrow> (Completed, destroy env cfg x4))))))"

text \<open>
  The events of a job as the specification orders them: \<open>pending\<close>, then the stages up to
  the one that fails, the later ones skipped, then the terminal event; the error event
  carries the error.
\<close>

fun job_events :: "string \<Rightarrow> run_end \<Rightarrow> events" where
  "job_events f (FailedLoading msg) =
     [progress_event f ''pending'' '''', progress_event f ''loading'' '''',
      progress_event f ''error'' msg]"
| "job_events f (FailedDetecting msg) =
     [progress_event f ''pending'' '''', progress_event f ''loading'' '''',
      progress_event f ''detecting'' '''', progress_event f ''error'' msg]"
| "job_events f (FailedExporting msg) =
     [progress_event f ''pending'' '''', progress_event f ''loading'' '''',
      progress_event f ''detecting'' '''', progress_event f ''exporting'' '''',
      progress_event f ''error'' msg]"
| "job_events f Completed =
     [progress_event f ''pending'' '''', progress_event f ''loading'' '''',
      progress_event f ''detecting'' '''', progress_event f ''exporting'' '''',
      progress_event f ''completed'' '''']"

text \<open>
  The events of the jobs of a batch, one list for each file in the order of the files, the
  stages of a job run in the external state that the job before it left.
\<close>

fun batch_traces ::
  "('x, events) env \<Rightarrow> string list \<Rightarrow> CondenseOptions \<Rightarrow> 'x \<Rightarrow> events list" where
  "batch_traces env [] options x = []"
| "batch_traces env (filePath # rest) options x =
     (let (e, x') = stage_results env filePath (OutputDir options) (OutputSuffix options)
                      (OutputFormat options) (to_float32 env (VadThreshold options))
                      (MinSilenceDuration options) (SpeechPaddingMs options) None x
      in job_events filePath e # batch_traces env rest options x')"

section \<open>A test bench\<close>

text \<open>
  Collaborators for running the model on concrete inputs. The external state counts the
  calls made. Decoding fails for \<open>missing.wav\<close>, yields two samples of value zero for
  \<open>silence.wav\<close>, one sample of all bits set for \<open>noise.wav\<close> and two other samples for any
  other file. The detector finds nothing in samples that are all zero, fails on the sample
  of \<open>noise.wav\<close> and finds \<open>segs\<close> otherwise; it reports two progress values and leaves a
  logger of its own installed.
\<close>

definition bench :: "Segment list \<Rightarrow> (nat, 'k) env" where
  "bench segs =
     \<lparr>run_captured = (\<lambda>args x.
        (if hd (tl args) = ''missing.wav''
         then Inl (''exit status 1'', ''missing.wav: No such file or directory'')
         else if hd (tl args) = ''silence.wav'' then Inr [0, 0, 0, 0, 0, 0, 0, 0]
         else if hd (tl args) = ''noise.wav'' then Inr [255, 255, 255, 255]
         else Inr [0, 0, 128, 63, 0, 0, 0, 191], x + 1)),
      run_combined = (\<lambda>args x. (None, x + 1)),
      new_detector = (\<lambda>cfg x. (None, x + 1)),
      detect = (\<lambda>cfg samples lg x.
        (if list_all (\<lambda>s. s = 0) samples then Inr []
         else if samples = [- 1] then Inl ''inference failed'' else Inr segs,
         [1 / 2, 1], TextLogger Stderr (Some LevelDebug), x + 1)),
      destroy = (\<lambda>cfg x. x + 1),
      to_float32 = (\<lambda>v. v)\<rparr>"

definition bench_options :: CondenseOptions where
  "bench_options =
     \<lparr>OutputSuffix = ''_condensed'', OutputDir = '''', OutputFormat = ''wav'',
      VadThreshold = 1 / 2, MinSilenceDuration = 200, SpeechPaddingMs = 200\<rparr>"

definition bench_world :: "'k \<Rightarrow> (nat, 'k) world" where
  "bench_world k =
     \<lparr>default_logger = TextLogger Stderr (Some LevelWarn), commands = [], ext = 0, sink = k\<rparr>"

definition speech :: "Segment list" where
  "speech = [\<lparr>SpeechStartAt = 1 / 2, SpeechEndAt = 5 / 4\<rparr>,
             \<lparr>SpeechStartAt = 2, SpeechEndAt = 7 / 2\<rparr>]"

text \<open>The same collaborators with an encoder that cannot write the output of \<open>full.wav\<close>.\<close>

definition bench_full :: "Segment list \<Rightarrow> (nat, 'k) env" where
  "bench_full segs =
     (bench segs)\<lparr>run_combined := (\<lambda>args x.
        (if hd (tl (tl args)) = ''full.wav''
         then Some (''exit status 1'', ''No space left on device'') else None, x + 1))\<rparr>"

section \<open>Evaluating the definitions on concrete inputs\<close>

lemma digit_char_eval:
  "digit_char 0 = CHR ''0''" "digit_char 1 = CHR ''1''" "digit_char 2 = CHR ''2''"
  "digit_char 3 = CHR ''3''" "digit_char 4 = CHR ''4''" "digit_char 5 = CHR ''5''"
  "digit_char 6 = CHR ''6''" "digit_char 7 = CHR ''7''" "digit_char 8 = CHR ''8''"
  "digit_char 9 = CHR ''9''" "digit_char (Suc 0) = CHR ''1''"
  unfolding digit_char_def by simp_all

lemma show_int_16000: "show_int 16000 = ''16000''"
  by (simp add: show_int_def show_nat.simps digit_char_eval)

lemma decode_args_16000:
  "decode_args inFile 16000 =
     [''-i'', inFile, ''-f'', ''f32le'', ''-acodec'', ''pcm_f32le'', ''-ac'', ''1'',
      ''-ar'', ''16000'', ''-'']"
  by (simp add: decode_args_def show_int_16000)

lemma replicate_2: "replicate 2 x = [x, x]"
  by (simp add: numeral_2_eq_2)

lemma parse_samples_eval:
  "parse_samples [0, 0, 0, 0, 0, 0, 0, 0] = Inr [0, 0]"
  "parse_samples [255, 255, 255, 255] = Inr [- 1]"
  "parse_samples [0, 0, 128, 63, 0, 0, 0, 191] = Inr [1065353216, 3204448256]"
  by (simp_all add: parse_samples_def read_samples.simps le32_def replicate_2)

lemma bench_sel:
  "run_captured (bench segs) args x =
        (if hd (tl args) = ''missing.wav''
         then Inl (''exit status 1'', ''missing.wav: No such file or directory'')
         else if hd (tl args) = ''silence.wav'' then Inr [0, 0, 0, 0, 0, 0, 0, 0]
         else if hd (tl args) = ''noise.wav'' then Inr [255, 255, 255, 255]
         else Inr [0, 0, 128, 63, 0, 0, 0, 191], x + 1)"
  "run_combined (bench segs) args x = (None, x + 1)"
  "new_detector (bench segs) cfg x = (None, x + 1)"
  "detect (bench segs) cfg samples lg x =
        (if list_all (\<lambda>s. s = 0) samples then Inr []
         else if samples = [- 1] then Inl ''inference failed'' else Inr segs,
         [1 / 2, 1], TextLogger Stderr (Some LevelDebug), x + 1)"
  "destroy (bench segs) cfg x = x + 1"
  "to_float32 (bench segs) v = v"
  by (simp_all add: bench_def)

lemmas bench_eval = bench_sel decode_args_16000 parse_samples_eval or_noop_def bench_world_def
  bench_options_def

lemmas fmt_eval = fmt_2f_def round_half_even_def show_nat.simps digit_char_eval Let_def

lemma fmt_2f_examples:
  "fmt_2f 0 = ''0.00''" "fmt_2f 1 = ''1.00''" "fmt_2f 2 = ''2.00''" "fmt_2f 3 = ''3.00''"
  "fmt_2f (1 / 2) = ''0.50''" "fmt_2f (5 / 4) = ''1.25''" "fmt_2f (7 / 2) = ''3.50''"
  by (simp_all add: fmt_eval)

lemma fmt_2f_ties:
  "fmt_2f (1 / 8) = ''0.12''" "fmt_2f (3 / 8) = ''0.38''"
  by code_simp+

lemma filter_expression_examples:
  "filter_expression speech =
     ''aselect='' @ [CHR 0x27] @ ''between(t,0.50,1.25)+between(t,2.00,3.50)'' @ [CHR 0x27]
       @ '',asetpts=N/SR/TB''"
  "filter_expression [\<lparr>SpeechStartAt = 2, SpeechEndAt = 3\<rparr>, \<lparr>SpeechStartAt = 1 / 2, SpeechEndAt = 1\<rparr>] =
     ''aselect='' @ [CHR 0x27] @ ''between(t,2.00,3.00)+between(t,0.50,1.00)'' @ [CHR 0x27]
       @ '',asetpts=N/SR/TB''"
  "filter_expression [\<lparr>SpeechStartAt = 1 / 2, SpeechEndAt = 1\<rparr>, \<lparr>SpeechStartAt = 2, SpeechEndAt = 3\<rparr>] =
     ''aselect='' @ [CHR 0x27] @ ''between(t,0.50,1.00)+between(t,2.00,3.00)'' @ [CHR 0x27]
       @ '',asetpts=N/SR/TB''"
  "filter_expression [\<lparr>SpeechStartAt = 0, SpeechEndAt = 2\<rparr>, \<lparr>SpeechStartAt = 1, SpeechEndAt = 3\<rparr>] =
     ''aselect='' @ [CHR 0x27] @ ''between(t,0.00,2.00)+between(t,1.00,3.00)'' @ [CHR 0x27]
       @ '',asetpts=N/SR/TB''"
  "filter_expression [\<lparr>SpeechStartAt = 0, SpeechEndAt = 3\<rparr>] =
     ''aselect='' @ [CHR 0x27] @ ''between(t,0.00,3.00)'' @ [CHR 0x27]
       @ '',asetpts=N/SR/TB''"
  by (simp_all add: filter_expression_def cuts_def cut_def speech_def fmt_2f_examples)

lemma output_name_examples:
  "output_name ''/a/b/song.wav'' '''' ''_condensed'' ''mp3'' = ''/a/b/song_condensed.mp3''"
  "output_name ''/a/b/song.wav'' ''/out'' ''_c'' ''wav'' = ''/out/song_c.wav''"
  "output_name ''talk.flac'' ''out/'' ''_condensed'' ''wav'' = ''out/talk_condensed.wav''"
  "output_name ''talk.wav'' '''' ''_condensed'' ''wav'' = ''talk_condensed.wav''"
  "output_name ''b.wav'' ''/out'' ''_c'' ''mp3'' = ''/out/b_c.mp3''"
  by code_simp+

section \<open>The extension of a path\<close>

lemma ext_scan_dot:
  assumes "\<forall>c\<in>set xs. c \<noteq> CHR ''.'' \<and> \<not> is_sep c"
  shows "ext_scan (xs @ CHR ''.'' # rest) acc = CHR ''.'' # rev xs @ acc"
  using assms by (induction xs arbitrary: acc) (simp_all add: is_sep_def)

lemma filepath_Ext_dot:
  assumes "CHR ''/'' \<notin> set e" and "CHR ''.'' \<notin> set e"
  shows "filepath_Ext (p @ ''.'' @ e) = ''.'' @ e"
proof -
  have "\<forall>c\<in>set (rev e). c \<noteq> CHR ''.'' \<and> \<not> is_sep c"
    using assms by (auto simp add: is_sep_def)
  then have "ext_scan (rev e @ CHR ''.'' # rev p) [] = CHR ''.'' # rev (rev e) @ []"
    by (rule ext_scan_dot)
  then show ?thesis
    by (simp add: filepath_Ext_def)
qed

lemma TrimSuffix_append: "strings_TrimSuffix (stem @ suffix) suffix = stem"
  by (simp add: strings_TrimSuffix_def)

section \<open>Properties of a single run\<close>

lemma or_noop_None: "or_noop None = Some (\<lambda>a k. k)"
  by (simp add: or_noop_def)

lemma or_noop_Some: "or_noop (Some f) = Some f"
  by (simp add: or_noop_def)

lemma or_noop_is_Some: "\<exists>f. or_noop callback = Some f"
  by (cases callback) (simp_all add: or_noop_def)

lemma or_noop_idem: "or_noop (or_noop callback) = or_noop callback"
  by (cases callback) (simp_all add: or_noop_def)

lemma invoke_Some: "invoke (Some g) a w = Some (w\<lparr>sink := g a (sink w)\<rparr>)"
  by (simp add: invoke_def)

lemma invoke_each_Some: "invoke_each (Some g) as w = Some (w\<lparr>sink := fold g as (sink w)\<rparr>)"
  by (induction as arbitrary: w) (simp_all add: invoke_Some)

lemma Detect_Some:
  "ProgressCallback sd = Some h \<Longrightarrow>
   Detect env sd samples w =
     (case detect env sd samples (default_logger w) (ext w) of
        (r, progress, lg, x) \<Rightarrow>
          (Done r, w\<lparr>default_logger := lg, ext := x, sink := fold h progress (sink w)\<rparr>))"
  by (simp add: Detect_def invoke_each_Some split: prod.splits)

lemma detect_and_export_no_panic:
  assumes "ProgressCallback sd = Some h"
    and "detect_and_export env sd inFile outDir outSuffix outFormat (Some g) samples w = (r, w')"
  shows "r \<noteq> Panic"
  using assms
  by (auto simp add: detect_and_export_def Detect_Some invoke_Some Let_def
        split: prod.splits sum.splits option.splits if_splits)

lemma detect_and_export_logger:
  assumes "ProgressCallback sd = Some h"
    and "detect_and_export env sd inFile outDir outSuffix outFormat statusCallback samples w
           = (r, w')"
  shows "default_logger w' = default_logger w"
  using assms
  by (auto simp add: detect_and_export_def Detect_Some invoke_def Let_def run_export_def
        split: prod.splits sum.splits option.splits if_splits)

lemma config_callback:
  "ProgressCallback (detector_config threshold minSilenceDuration padMs cb) = cb"
  by (simp add: detector_config_def)

lemma CWO_no_panic:
  "fst (CondenseWithOptions env inFile outDir outSuffix outFormat threshold minSilenceDuration padMs
          progressCallback statusCallback w) \<noteq> Panic"
proof -
  obtain g where g: "or_noop statusCallback = Some g"
    using or_noop_is_Some by blast
  obtain h where h: "or_noop progressCallback = Some h"
    using or_noop_is_Some by blast
  show ?thesis
    by (auto simp add: CondenseWithOptions_def g h invoke_Some Let_def
          split: prod.splits sum.splits option.splits
          dest: detect_and_export_no_panic [OF config_callback])
qed

lemma CWO_logger:
  "default_logger (snd (CondenseWithOptions env inFile outDir outSuffix outFormat threshold
          minSilenceDuration padMs progressCallback statusCallback w)) = default_logger w"
proof -
  obtain g where g: "or_noop statusCallback = Some g"
    using or_noop_is_Some by blast
  obtain h where h: "or_noop progressCallback = Some h"
    using or_noop_is_Some by blast
  show ?thesis
    by (auto simp add: CondenseWithOptions_def g h invoke_Some Let_def decodeToFloat32_def
          NewDetector_def Destroy_def
          split: prod.splits sum.splits option.splits
          dest!: detect_and_export_logger [OF config_callback])
qed

lemmas run_defs =
  CondenseWithOptions_def detector_output_def invoke_Some Let_def decodeToFloat32_def
  NewDetector_def Destroy_def detect_and_export_def Detect_Some config_callback run_export_def

lemma CWO_speech:
  assumes det: "detector_output env inFile threshold minSilenceDuration padMs progressCallback (ext w)
                  = Some (Inr segs)"
    and ne: "segs \<noteq> []"
    and g: "or_noop statusCallback = Some g"
    and h: "or_noop progressCallback = Some h"
  shows "\<exists>r w1 ps. CondenseWithOptions env inFile outDir outSuffix outFormat threshold
            minSilenceDuration padMs progressCallback statusCallback w = (Done r, w1)
          \<and> commands w1 = commands w @
                [decode_args inFile 16000,
                 export_args inFile (filter_expression segs)
                   (output_name inFile outDir outSuffix outFormat)]
          \<and> default_logger w1 = default_logger w
          \<and> sink w1 = g ''exporting'' (fold h ps (g ''detecting'' (g ''loading'' (sink w))))"
  using det ne
  by (auto simp add: run_defs g h split: prod.splits sum.splits option.splits if_splits)

lemma CWO_silence:
  assumes det: "detector_output env inFile threshold minSilenceDuration padMs progressCallback (ext w)
                  = Some (Inr [])"
    and g: "or_noop statusCallback = Some g"
    and h: "or_noop progressCallback = Some h"
  shows "\<exists>w1 ps. CondenseWithOptions env inFile outDir outSuffix outFormat threshold
            minSilenceDuration padMs progressCallback statusCallback w
            = (Done (Some (''no speech detected in file: '' @ inFile)), w1)
          \<and> commands w1 = commands w @ [decode_args inFile 16000]
          \<and> default_logger w1 = default_logger w
          \<and> sink w1 = fold h ps (g ''detecting'' (g ''loading'' (sink w)))"
  using det
  by (auto simp add: run_defs g h split: prod.splits sum.splits option.splits if_splits)

section \<open>Properties of a batch\<close>

lemma fold_noop: "fold (\<lambda>a k. k) ps k = k"
  by (induction ps) simp_all

lemma CWO_stages:
  assumes g: "or_noop statusCallback = Some g"
  shows "\<exists>r w1. CondenseWithOptions env inFile outDir outSuffix outFormat threshold
            minSilenceDuration padMs None statusCallback w = (Done r, w1)
          \<and> (sink w1 = g ''loading'' (sink w) \<and> r \<noteq> None
             \<or> sink w1 = g ''detecting'' (g ''loading'' (sink w)) \<and> r \<noteq> None
             \<or> sink w1 = g ''exporting'' (g ''detecting'' (g ''loading'' (sink w))))"
  by (auto simp add: run_defs g or_noop_None fold_noop
        split: prod.splits sum.splits option.splits if_splits)

lemma is_job_trace_shape:
  assumes "is_job_trace f tr"
  shows "\<exists>msg.
       tr = [progress_event f ''pending'' [], progress_event f ''loading'' [],
             progress_event f ''error'' msg]
     \<or> tr = [progress_event f ''pending'' [], progress_event f ''loading'' [],
             progress_event f ''detecting'' [], progress_event f ''error'' msg]
     \<or> tr = [progress_event f ''pending'' [], progress_event f ''loading'' [],
             progress_event f ''detecting'' [], progress_event f ''exporting'' [],
             progress_event f ''error'' msg]
     \<or> tr = [progress_event f ''pending'' [], progress_event f ''loading'' [],
             progress_event f ''detecting'' [], progress_event f ''exporting'' [],
             progress_event f ''completed'' []]"
  using assms unfolding is_job_trace_def Let_def by blast

lemma is_job_trace_terminal:
  assumes "is_job_trace f tr"
  shows "map (\<lambda>e. FilePath (snd e)) (filter is_terminal tr) = [f]"
  using is_job_trace_shape [OF assms]
  by (auto simp add: is_terminal_def progress_event_def)

lemma traces_terminal:
  assumes "list_all2 is_job_trace files traces"
  shows "map (\<lambda>e. FilePath (snd e)) (filter is_terminal (concat traces)) = files"
  using assms
  by (induction files traces rule: list_all2_induct) (simp_all add: is_job_trace_terminal)

lemma CondenseFiles_traces:
  "\<exists>traces. fst (CondenseFiles env files options w) = Done ()
      \<and> sink (snd (CondenseFiles env files options w)) = sink w @ concat traces
      \<and> list_all2 is_job_trace files traces"
proof (induction files arbitrary: w)
  case Nil
  show ?case by simp
next
  case (Cons f rest)
  define g where "g = (\<lambda>status. EventsEmit ''condense:progress''
                              \<lparr>FilePath = f, Status = status, Error = ''''\<rparr>)"
  define w0 where "w0 = w\<lparr>sink := EventsEmit ''condense:progress''
                  \<lparr>FilePath = f, Status = ''pending'', Error = ''''\<rparr> (sink w)\<rparr>"
  obtain r w1 where run: "CondenseWithOptions env f (OutputDir options) (OutputSuffix options)
                (OutputFormat options) (to_float32 env (VadThreshold options))
                (MinSilenceDuration options) (SpeechPaddingMs options) None
                (Some g) w0 = (Done r, w1)"
    and stages: "sink w1 = g ''loading'' (sink w0) \<and> r \<noteq> None
             \<or> sink w1 = g ''detecting'' (g ''loading'' (sink w0)) \<and> r \<noteq> None
             \<or> sink w1 = g ''exporting'' (g ''detecting'' (g ''loading'' (sink w0)))"
    using CWO_stages [OF or_noop_Some] by blast
  define status where "status = (case r of None \<Rightarrow> ''completed'' | Some e \<Rightarrow> ''error'')"
  define errMsg where "errMsg = (case r of None \<Rightarrow> '''' | Some e \<Rightarrow> e)"
  define w2 where "w2 = w1\<lparr>sink := EventsEmit ''condense:progress''
                          \<lparr>FilePath = f, Status = status, Error = errMsg\<rparr> (sink w1)\<rparr>"
  have step: "CondenseFiles env (f # rest) options w = CondenseFiles env rest options w2"
    using run by (simp add: g_def w0_def w2_def status_def errMsg_def Let_def)
  obtain tr where tr: "sink w2 = sink w @ tr" and shape: "is_job_trace f tr"
  proof -
    have "\<exists>tr. sink w2 = sink w @ tr \<and> is_job_trace f tr"
      using stages
      by (cases r)
        (auto simp add: w2_def w0_def g_def status_def errMsg_def EventsEmit_def
          is_job_trace_def progress_event_def Let_def)
    then show ?thesis using that by blast
  qed
  obtain traces where rest: "fst (CondenseFiles env rest options w2) = Done ()"
      "sink (snd (CondenseFiles env rest options w2)) = sink w2 @ concat traces"
      "list_all2 is_job_trace rest traces"
    using Cons.IH [of w2] by blast
  have "fst (CondenseFiles env (f # rest) options w) = Done ()
      \<and> sink (snd (CondenseFiles env (f # rest) options w)) = sink w @ concat (tr # traces)
      \<and> list_all2 is_job_trace (f # rest) (tr # traces)"
    using step rest tr shape by simp
  then show ?case by blast
qed

lemma CWO_end:
  assumes g: "or_noop statusCallback = Some g"
    and e: "stage_results env inFile outDir outSuffix outFormat threshold minSilenceDuration
              padMs None (ext w) = (e, x')"
  shows "\<exists>w1. CondenseWithOptions env inFile outDir outSuffix outFormat threshold
            minSilenceDuration padMs None statusCallback w
            = (Done (case e of FailedLoading m \<Rightarrow> Some m | FailedDetecting m \<Rightarrow> Some m
                       | FailedExporting m \<Rightarrow> Some m | Completed \<Rightarrow> None), w1)
          \<and> ext w1 = x'
          \<and> sink w1 = (case e of
                FailedLoading m \<Rightarrow> g ''loading'' (sink w)
              | FailedDetecting m \<Rightarrow> g ''detecting'' (g ''loading'' (sink w))
              | FailedExporting m \<Rightarrow> g ''exporting'' (g ''detecting'' (g ''loading'' (sink w)))
              | Completed \<Rightarrow> g ''exporting'' (g ''detecting'' (g ''loading'' (sink w))))"
  using e
  by (auto simp add: run_defs stage_results_def g or_noop_None fold_noop
        split: prod.splits sum.splits option.splits if_splits)

lemma job_events_trace: "is_job_trace f (job_events f e)"
  by (cases e) (simp_all add: is_job_trace_def progress_event_def)

lemma CondenseFiles_batch_traces:
  "sink (snd (CondenseFiles env files options w))
     = sink w @ concat (batch_traces env files options (ext w))"
proof (induction files arbitrary: w)
  case Nil
  show ?case by simp
next
  case (Cons f rest)
  define g where "g = (\<lambda>status. EventsEmit ''condense:progress''
                              \<lparr>FilePath = f, Status = status, Error = ''''\<rparr>)"
  define w0 where "w0 = w\<lparr>sink := EventsEmit ''condense:progress''
                  \<lparr>FilePath = f, Status = ''pending'', Error = ''''\<rparr> (sink w)\<rparr>"
  obtain e x' where e: "stage_results env f (OutputDir options) (OutputSuffix options)
                (OutputFormat options) (to_float32 env (VadThreshold options))
                (MinSilenceDuration options) (SpeechPaddingMs options) None (ext w) = (e, x')"
    by (cases "stage_results env f (OutputDir options) (OutputSuffix options)
                (OutputFormat options) (to_float32 env (VadThreshold options))
                (MinSilenceDuration options) (SpeechPaddingMs options)
                (None :: (rat \<Rightarrow> events \<Rightarrow> events) option) (ext w)")
  have e0: "stage_results env f (OutputDir options) (OutputSuffix options)
                (OutputFormat options) (to_float32 env (VadThreshold options))
                (MinSilenceDuration options) (SpeechPaddingMs options) None (ext w0) = (e, x')"
    using e by (simp add: w0_def)
  define r where "r = (case e of FailedLoading m \<Rightarrow> Some m | FailedDetecting m \<Rightarrow> Some m
                       | FailedExporting m \<Rightarrow> Some m | Completed \<Rightarrow> None)"
  obtain w1 where run: "CondenseWithOptions env f (OutputDir options) (OutputSuffix options)
                (OutputFormat options) (to_float32 env (VadThreshold options))
                (MinSilenceDuration options) (SpeechPaddingMs options) None
                (Some g) w0 = (Done r, w1)"
    and x1: "ext w1 = x'"
    and s1: "sink w1 = (case e of
                FailedLoading m \<Rightarrow> g ''loading'' (sink w0)
              | FailedDetecting m \<Rightarrow> g ''detecting'' (g ''loading'' (sink w0))
              | FailedExporting m \<Rightarrow> g ''exporting'' (g ''detecting'' (g ''loading'' (sink w0)))
              | Completed \<Rightarrow> g ''exporting'' (g ''detecting'' (g ''loading'' (sink w0))))"
    using CWO_end [OF or_noop_Some e0] unfolding r_def by blast
  define status where "status = (case r of None \<Rightarrow> ''completed'' | Some e \<Rightarrow> ''error'')"
  define errMsg where "errMsg = (case r of None \<Rightarrow> '''' | Some e \<Rightarrow> e)"
  define w2 where "w2 = w1\<lparr>sink := EventsEmit ''condense:progress''
                          \<lparr>FilePath = f, Status = status, Error = errMsg\<rparr> (sink w1)\<rparr>"
  have step: "CondenseFiles env (f # rest) options w = CondenseFiles env rest options w2"
    using run by (simp add: g_def w0_def w2_def status_def errMsg_def Let_def)
  have tr: "sink w2 = sink w @ job_events f e"
    using s1
    by (cases e)
      (simp_all add: w2_def w0_def g_def r_def status_def errMsg_def EventsEmit_def
        progress_event_def)
  have x2: "ext w2 = x'"
    using x1 by (simp add: w2_def)
  have "sink (snd (CondenseFiles env rest options w2))
          = sink w2 @ concat (batch_traces env rest options (ext w2))"
    by (rule Cons.IH)
  then show ?case
    using step tr x2 e by simp
qed

lemma batch_traces_shape: "list_all2 is_job_trace files (batch_traces env files options x)"
  by (induction files arbitrary: x) (simp_all add: job_events_trace split: prod.splits)

section \<open>The specification's validator on sequences that are already normalized\<close>

lemma spec_merge_id: "non_overlapping segs \<Longrightarrow> spec_merge segs = segs"
  by (induction segs rule: spec_merge.induct) auto

lemma spec_normalize_id:
  assumes "sorted_by_start segs" and "non_overlapping segs"
  shows "spec_normalize segs = segs"
  using assms
  by (simp add: spec_normalize_def sorted_by_start_def sort_key_id_if_sorted spec_merge_id)

lemma CWO_filter_argument:
  assumes det: "detector_output env inFile threshold minSilenceDuration padMs progressCallback (ext w)
                  = Some (Inr segs)"
    and ne: "segs \<noteq> []"
  shows "filter_argument (last (commands (snd (CondenseWithOptions env inFile outDir outSuffix
            outFormat threshold minSilenceDuration padMs progressCallback statusCallback w))))
         = filter_expression segs"
proof -
  obtain g where g: "or_noop statusCallback = Some g"
    using or_noop_is_Some by blast
  obtain h where h: "or_noop progressCallback = Some h"
    using or_noop_is_Some by blast
  from CWO_speech [OF det ne g h, of outDir outSuffix outFormat]
  show ?thesis
    by (auto simp add: filter_argument_def export_args_def)
qed

section \<open>What the selection expression reads back as\<close>

lemma digit_cases:
  assumes "d < (10 :: nat)"
  shows "d = 0 \<or> d = 1 \<or> d = 2 \<or> d = 3 \<or> d = 4 \<or> d = 5 \<or> d = 6 \<or> d = 7 \<or> d = 8 \<or> d = 9"
  using assms by arith

lemma digit_val_digit_char:
  assumes "d < 10"
  shows "digit_val (digit_char d) = d"
  using digit_cases [OF assms] by (auto simp add: digit_val_def digit_char_eval)

lemma digit_char_digits:
  assumes "d < 10"
  shows "digit_char d \<in> digits"
  using digit_cases [OF assms] by (auto simp add: digits_def digit_char_eval)

lemma show_nat_digits: "set (show_nat n) \<subseteq> digits"
proof (induction n rule: show_nat.induct)
  case (1 n)
  show ?case
  proof (cases "n < 10")
    case True
    then show ?thesis
      by (subst show_nat.simps) (simp add: digit_char_digits)
  next
    case False
    then have "set (show_nat (n div 10)) \<subseteq> digits"
      using "1.IH" by simp
    moreover have "digit_char (n mod 10) \<in> digits"
      by (simp add: digit_char_digits)
    ultimately show ?thesis
      using False by (subst show_nat.simps) simp
  qed
qed

lemma show_nat_nonempty: "show_nat n \<noteq> []"
  by (subst show_nat.simps) simp

lemma read_nat_snoc: "read_nat (ds @ [c]) = 10 * read_nat ds + digit_val c"
  by (simp add: read_nat_def)

lemma read_nat_show_nat: "read_nat (show_nat n) = n"
proof (induction n rule: show_nat.induct)
  case (1 n)
  show ?case
  proof (cases "n < 10")
    case True
    then show ?thesis
      by (subst show_nat.simps) (simp add: read_nat_def digit_val_digit_char)
  next
    case False
    then have "read_nat (show_nat (n div 10)) = n div 10"
      using "1.IH" by simp
    then show ?thesis
      using False
      by (subst show_nat.simps) (simp add: read_nat_snoc digit_val_digit_char)
  qed
qed

lemma not_digit: "CHR ''.'' \<notin> digits" "CHR ''-'' \<notin> digits" "CHR '','' \<notin> digits"
  "CHR ''+'' \<notin> digits"
  by (simp_all add: digits_def)

text \<open>The shape of a serialized time.\<close>

lemma fmt_2f_shape:
  "fmt_2f x = (if x < 0 then ''-'' else '''')
       @ show_nat (round_half_even (\<bar>x\<bar> * 100) div 100) @ ''.''
       @ [digit_char (round_half_even (\<bar>x\<bar> * 100) mod 100 div 10),
          digit_char (round_half_even (\<bar>x\<bar> * 100) mod 10)]"
  by (simp add: fmt_2f_def Let_def)

lemma fmt_2f_chars: "set (fmt_2f x) \<subseteq> digits \<union> {CHR ''-'', CHR ''.''}"
  using show_nat_digits [of "round_half_even (\<bar>x\<bar> * 100) div 100"]
    digit_char_digits [of "round_half_even (\<bar>x\<bar> * 100) mod 100 div 10"]
    digit_char_digits [of "round_half_even (\<bar>x\<bar> * 100) mod 10"]
  by (auto simp add: fmt_2f_shape)

lemma read_decimal_unsigned:
  assumes "set ip \<subseteq> digits" and "ip \<noteq> []"
  shows "read_decimal (ip @ ''.'' @ fp) = of_nat (read_nat ip) + of_nat (read_nat fp) / 10 ^ length fp"
proof -
  have nodot: "\<forall>c\<in>set ip. c \<noteq> CHR ''.''"
    using assms(1) not_digit(1) by auto
  have nominus: "take 1 (ip @ ''.'' @ fp) \<noteq> ''-''"
    using assms not_digit(2) by (cases ip) auto
  have tw: "takeWhile (\<lambda>c. c \<noteq> CHR ''.'') (ip @ ''.'' @ fp) = ip"
    using nodot by (simp add: takeWhile_append2)
  have dw: "dropWhile (\<lambda>c. c \<noteq> CHR ''.'') (ip @ ''.'' @ fp) = ''.'' @ fp"
    using nodot by (simp add: dropWhile_append2)
  show ?thesis
    using nominus tw dw by (simp add: read_decimal_def Let_def)
qed

lemma read_decimal_signed:
  assumes "set ip \<subseteq> digits" and "ip \<noteq> []"
  shows "read_decimal (''-'' @ ip @ ''.'' @ fp)
           = - (of_nat (read_nat ip) + of_nat (read_nat fp) / 10 ^ length fp)"
proof -
  have nodot: "\<forall>c\<in>set ip. c \<noteq> CHR ''.''"
    using assms(1) not_digit(1) by auto
  have tw: "takeWhile (\<lambda>c. c \<noteq> CHR ''.'') (ip @ ''.'' @ fp) = ip"
    using nodot by (simp add: takeWhile_append2)
  have dw: "dropWhile (\<lambda>c. c \<noteq> CHR ''.'') (ip @ ''.'' @ fp) = ''.'' @ fp"
    using nodot by (simp add: dropWhile_append2)
  show ?thesis
    using tw dw by (simp add: read_decimal_def Let_def)
qed

lemma two_digits_value:
  "read_nat [digit_char (q mod 100 div 10), digit_char (q mod 10)] = q mod 100"
proof -
  have a: "q mod 100 div 10 < 10"
    by (simp add: less_mult_imp_div_less)
  have b: "q mod 10 = q mod 100 mod 10"
    by (simp add: mod_mod_cancel)
  have "read_nat [digit_char (q mod 100 div 10), digit_char (q mod 10)]
          = 10 * (q mod 100 div 10) + q mod 10"
    using a by (simp add: read_nat_def digit_val_digit_char)
  also have "\<dots> = 10 * (q mod 100 div 10) + q mod 100 mod 10"
    using b by simp
  also have "\<dots> = q mod 100"
    by (rule mult_div_mod_eq)
  finally show ?thesis .
qed

lemma read_decimal_fmt_2f: "read_decimal (fmt_2f x) = hundredths x"
proof -
  define q where "q = round_half_even (\<bar>x\<bar> * 100)"
  have v: "(of_nat (q div 100) :: rat) + of_nat (q mod 100) / 10 ^ 2 = of_nat q / 100"
  proof -
    have "(of_nat q :: rat) = of_nat (100 * (q div 100) + q mod 100)"
      by simp
    also have "\<dots> = 100 * of_nat (q div 100) + of_nat (q mod 100)"
      by (simp only: of_nat_add of_nat_mult of_nat_numeral)
    finally show ?thesis
      by (simp add: field_simps)
  qed
  show ?thesis
  proof (cases "x < 0")
    case True
    have "read_decimal (fmt_2f x)
        = read_decimal (''-'' @ show_nat (q div 100) @ ''.''
            @ [digit_char (q mod 100 div 10), digit_char (q mod 10)])"
      using True by (simp add: fmt_2f_shape q_def)
    also have "\<dots> = - (of_nat (read_nat (show_nat (q div 100)))
          + of_nat (read_nat [digit_char (q mod 100 div 10), digit_char (q mod 10)])
            / 10 ^ length [digit_char (q mod 100 div 10), digit_char (q mod 10)])"
      by (rule read_decimal_signed [OF show_nat_digits show_nat_nonempty])
    also have "\<dots> = - (of_nat q / 100)"
      using v by (simp add: read_nat_show_nat two_digits_value)
    finally show ?thesis
      using True by (simp add: hundredths_def q_def)
  next
    case False
    have "read_decimal (fmt_2f x)
        = read_decimal (show_nat (q div 100) @ ''.''
            @ [digit_char (q mod 100 div 10), digit_char (q mod 10)])"
      using False by (simp add: fmt_2f_shape q_def)
    also have "\<dots> = of_nat (read_nat (show_nat (q div 100)))
          + of_nat (read_nat [digit_char (q mod 100 div 10), digit_char (q mod 10)])
            / 10 ^ length [digit_char (q mod 100 div 10), digit_char (q mod 10)]"
      by (rule read_decimal_unsigned [OF show_nat_digits show_nat_nonempty])
    also have "\<dots> = of_nat q / 100"
      using v by (simp add: read_nat_show_nat two_digits_value)
    finally show ?thesis
      using False by (simp add: hundredths_def q_def)
  qed
qed

text \<open>Splitting a joined text gives the pieces back when none contains the separator.\<close>

lemma split_on_none: "c \<notin> set a \<Longrightarrow> split_on c a = [a]"
  by (induction a) auto

lemma split_on_append: "c \<notin> set a \<Longrightarrow> split_on c (a @ c # rest) = a # split_on c rest"
  by (induction a) auto

lemma split_on_Join:
  assumes "\<forall>x\<in>set xs. c \<notin> set x" and "xs \<noteq> []"
  shows "split_on c (strings_Join xs [c]) = xs"
  using assms
proof (induction xs "[c]" rule: strings_Join.induct)
  case 1
  then show ?case by simp
next
  case (2 e)
  then show ?case by (simp add: split_on_none)
next
  case (3 e e' es)
  then show ?case by (simp add: split_on_append)
qed

lemma fmt_2f_no_comma: "CHR '','' \<notin> set (fmt_2f x)"
  using fmt_2f_chars [of x] not_digit(3) by auto

lemma fmt_2f_no_plus: "CHR ''+'' \<notin> set (fmt_2f x)"
  using fmt_2f_chars [of x] not_digit(4) by auto

lemma cut_no_plus: "CHR ''+'' \<notin> set (cut s)"
  by (simp add: cut_def fmt_2f_no_plus)

lemma parse_between_cut:
  "parse_between (cut s) = (hundredths (SpeechStartAt s), hundredths (SpeechEndAt s))"
proof -
  define a where "a = fmt_2f (SpeechStartAt s)"
  define b where "b = fmt_2f (SpeechEndAt s)"
  have c: "cut s = ''between(t,'' @ a @ '','' @ b @ '')''"
    by (simp add: cut_def a_def b_def)
  have inner: "take (length (cut s) - 11) (drop 10 (cut s)) = a @ CHR '','' # b"
    by (simp add: c)
  have "split_on (CHR '','') (a @ CHR '','' # b) = [a, b]"
    by (simp add: split_on_append split_on_none a_def b_def fmt_2f_no_comma)
  then show ?thesis
    by (simp add: parse_between_def inner Let_def a_def b_def read_decimal_fmt_2f)
qed

lemma parse_filter_expression:
  assumes "segs \<noteq> []"
  shows "parse_filter (filter_expression segs)
           = map (\<lambda>s. (hundredths (SpeechStartAt s), hundredths (SpeechEndAt s))) segs"
proof -
  define body where "body = strings_Join (cuts segs) ''+''"
  have af: "filter_expression segs = ''aselect='' @ [CHR 0x27] @ body @ [CHR 0x27]
       @ '',asetpts=N/SR/TB''"
    by (simp add: filter_expression_def body_def)
  have inner: "take (length (filter_expression segs) - 26) (drop 9 (filter_expression segs)) = body"
    by (simp add: af)
  have "split_on (CHR ''+'') body = cuts segs"
    unfolding body_def using assms
    by (intro split_on_Join) (auto simp add: cuts_def cut_no_plus)
  then show ?thesis
    by (simp add: parse_filter_def inner cuts_def parse_between_cut)
qed

text \<open>A sum of \<open>between\<close> terms is not zero exactly when one of them is one.\<close>

lemma aselect_value_nonneg: "0 \<le> aselect_value terms t"
  by (induction terms) (auto simp add: aselect_value_def between_def)

lemma aselect_value_zero:
  "aselect_value terms t = 0 \<longleftrightarrow> (\<forall>(lo, hi)\<in>set terms. \<not> (lo \<le> t \<and> t \<le> hi))"
proof (induction terms)
  case Nil
  show ?case by (simp add: aselect_value_def)
next
  case (Cons p terms)
  obtain lo hi where p: "p = (lo, hi)" by (cases p)
  have split: "aselect_value (p # terms) t = between t lo hi + aselect_value terms t"
    by (simp add: aselect_value_def p)
  have nn: "0 \<le> aselect_value terms t"
    by (rule aselect_value_nonneg)
  show ?case
  proof (cases "lo \<le> t \<and> t \<le> hi")
    case True
    then have "aselect_value (p # terms) t = 1 + aselect_value terms t"
      by (simp add: split between_def)
    then have "aselect_value (p # terms) t \<noteq> 0"
      using nn by simp
    then show ?thesis using True p by simp
  next
    case False
    then have "aselect_value (p # terms) t = aselect_value terms t"
      by (simp add: split between_def)
    then show ?thesis using False p Cons.IH by simp
  qed
qed

lemma keeps_filter_expression:
  assumes "segs \<noteq> []"
  shows "keeps (filter_expression segs) t \<longleftrightarrow>
           (\<exists>s\<in>set segs. hundredths (SpeechStartAt s) \<le> t \<and> t \<le> hundredths (SpeechEndAt s))"
  by (auto simp add: keeps_def aselect_value_zero parse_filter_expression [OF assms])

text \<open>Rounding to hundredths moves a time by five milliseconds at most.\<close>

lemma round_half_even_near:
  assumes "0 \<le> y"
  shows "\<bar>of_nat (round_half_even y) - y\<bar> \<le> 1 / 2"
proof -
  have f: "of_int \<lfloor>y\<rfloor> \<le> y" "y < of_int \<lfloor>y\<rfloor> + 1"
    by linarith+
  have n: "(of_nat (nat \<lfloor>y\<rfloor>) :: rat) = of_int \<lfloor>y\<rfloor>"
    using assms by simp
  show ?thesis
    using f n by (auto simp add: round_half_even_def Let_def)
qed

lemma hundredths_near: "\<bar>hundredths x - x\<bar> \<le> 1 / 200"
proof -
  define q where "q = (of_nat (round_half_even (\<bar>x\<bar> * 100)) :: rat)"
  have "\<bar>q - \<bar>x\<bar> * 100\<bar> \<le> 1 / 2"
    unfolding q_def by (rule round_half_even_near) simp
  then have near: "\<bar>q / 100 - \<bar>x\<bar>\<bar> \<le> 1 / 200"
    by (simp add: abs_le_iff field_simps)
  show ?thesis
  proof (cases "x < 0")
    case True
    then have "hundredths x - x = - (q / 100 - \<bar>x\<bar>)"
      by (simp add: hundredths_def q_def)
    then show ?thesis using near by (simp add: abs_minus_commute)
  next
    case False
    then have "hundredths x - x = q / 100 - \<bar>x\<bar>"
      by (simp add: hundredths_def q_def)
    then show ?thesis using near by simp
  qed
qed

lemma two_decimals_fmt_2f: "two_decimals (fmt_2f x)"
proof -
  define pre where "pre = (if x < 0 then ''-'' else '''')
       @ show_nat (round_half_even (\<bar>x\<bar> * 100) div 100)"
  define d1 where "d1 = digit_char (round_half_even (\<bar>x\<bar> * 100) mod 100 div 10)"
  define d2 where "d2 = digit_char (round_half_even (\<bar>x\<bar> * 100) mod 10)"
  have shape: "fmt_2f x = pre @ [CHR ''.'', d1, d2]"
    by (simp add: fmt_2f_shape pre_def d1_def d2_def)
  have "\<forall>c\<in>set pre. c \<noteq> CHR ''.''"
    using show_nat_digits [of "round_half_even (\<bar>x\<bar> * 100) div 100"] not_digit(1)
    by (auto simp add: pre_def)
  then have dw: "dropWhile (\<lambda>c. c \<noteq> CHR ''.'') (fmt_2f x) = [CHR ''.'', d1, d2]"
    by (simp add: shape dropWhile_append2)
  have "d1 \<in> digits" "d2 \<in> digits"
    by (simp_all add: d1_def d2_def digit_char_digits less_mult_imp_div_less)
  then show ?thesis
    by (simp add: two_decimals_def dw)
qed


lemma hundredths_examples:
  "hundredths 0 = 0" "hundredths 1 = 1" "hundredths 2 = 2" "hundredths 3 = 3"
  "hundredths 5 = 5" "hundredths 6 = 6"
  "hundredths (1 / 2) = 1 / 2" "hundredths (5 / 4) = 5 / 4" "hundredths (7 / 2) = 7 / 2"
  "hundredths (1 / 8) = 3 / 25" "hundredths (3 / 8) = 19 / 50"
  by code_simp+

section \<open>Merging and the union of the intervals\<close>



lemma covered_Nil: "covered [] = {}"
  by (simp add: covered_def)










section \<open>The path operations on the elements of a path\<close>

lemma split_on_nonempty: "split_on c xs \<noteq> []"
  by (induction xs) (simp_all split: list.splits)

lemma split_on_sep: "split_on c (a @ c # b) = split_on c a @ split_on c b"
proof (induction a)
  case Nil
  show ?case by simp
next
  case (Cons x xs)
  obtain y ys where "split_on c xs = y # ys"
    using split_on_nonempty [of c xs] by (cases "split_on c xs") auto
  then show ?case
    using Cons by simp
qed

lemma elements_Nil: "elements [] = []"
  by (simp add: elements_def)

lemma elements_sep: "elements (a @ CHR ''/'' # b) = elements a @ elements b"
  by (simp add: elements_def split_on_sep)

lemma elements_skip_sep: "elements (CHR ''/'' # cs) = elements cs"
  using elements_sep [of "[]" cs] by (simp add: elements_Nil)

lemma elements_one: "CHR ''/'' \<notin> set e \<Longrightarrow> e \<noteq> [] \<Longrightarrow> elements e = [e]"
  by (simp add: elements_def split_on_none)

lemma elements_first:
  assumes "\<not> is_sep c"
  shows "elements (c # cs)
           = (c # takeWhile (\<lambda>d. \<not> is_sep d) cs) # elements (dropWhile (\<lambda>d. \<not> is_sep d) cs)"
proof -
  define e where "e = c # takeWhile (\<lambda>d. \<not> is_sep d) cs"
  define rest where "rest = dropWhile (\<lambda>d. \<not> is_sep d) cs"
  have split: "c # cs = e @ rest"
    by (simp add: e_def rest_def)
  have e: "CHR ''/'' \<notin> set e" "e \<noteq> []"
    using assms by (auto simp add: e_def is_sep_def dest: set_takeWhileD)
  show ?thesis
  proof (cases rest)
    case Nil
    then show ?thesis
      using e split by (simp add: elements_one elements_Nil flip: e_def rest_def)
  next
    case (Cons r rs)
    then have "is_sep r"
      using hd_dropWhile [of "\<lambda>d. \<not> is_sep d" cs] by (simp add: rest_def)
    then have "rest = CHR ''/'' # rs"
      using Cons by (simp add: is_sep_def)
    then have "elements (c # cs) = elements e @ elements rs" "elements rest = elements rs"
      using split by (simp_all add: elements_sep elements_skip_sep)
    then show ?thesis
      using e by (simp add: elements_one flip: e_def rest_def)
  qed
qed

lemma Join_snoc:
  "strings_Join (st @ [e]) sep = (if st = [] then e else strings_Join st sep @ sep @ e)"
  by (induction st sep rule: strings_Join.induct) simp_all

lemma Join_append:
  "strings_Join (a @ b) sep =
     (if a = [] then strings_Join b sep
      else if b = [] then strings_Join a sep
      else strings_Join a sep @ sep @ strings_Join b sep)"
  by (induction a sep rule: strings_Join.induct) (simp_all, cases b, simp_all)

lemma Join_empty: "\<forall>e\<in>set st. e \<noteq> [] \<Longrightarrow> strings_Join st sep = [] \<longleftrightarrow> st = []"
  by (induction st sep rule: strings_Join.induct) simp_all

lemma back_up_stop:
  assumes "n \<le> w" and "dotdot \<le> n"
    and "\<forall>i. n < i \<and> i \<le> w \<longrightarrow> \<not> is_sep (out ! i)"
    and "n = dotdot \<or> is_sep (out ! n)"
  shows "back_up out dotdot w = n"
  using assms
proof (induction w)
  case 0
  then show ?case by (subst back_up.simps) simp
next
  case (Suc w)
  show ?case
  proof (cases "n = Suc w")
    case True
    then show ?thesis
      using Suc.prems(2,4) by (subst back_up.simps) auto
  next
    case False
    then have "n \<le> w"
      using Suc.prems(1) by simp
    moreover have "\<forall>i. n < i \<and> i \<le> w \<longrightarrow> \<not> is_sep (out ! i)"
      using Suc.prems(3) by simp
    ultimately have "back_up out dotdot w = n"
      using Suc.prems(2,4) by (intro Suc.IH)
    moreover have "dotdot < Suc w" "\<not> is_sep (out ! Suc w)"
      using Suc.prems(2,3) \<open>n \<le> w\<close> by simp_all
    ultimately show ?thesis
      by (subst back_up.simps) simp
  qed
qed

lemma back_up_first:
  assumes "\<forall>c\<in>set x. \<not> is_sep c" and "x \<noteq> []"
  shows "back_up (a @ x) (length a) (length a + length x - 1) = length a"
proof (rule back_up_stop)
  show "length a \<le> length a + length x - 1"
    using assms(2) by (cases x) simp_all
  show "\<forall>i. length a < i \<and> i \<le> length a + length x - 1 \<longrightarrow> \<not> is_sep ((a @ x) ! i)"
    using assms by (auto simp add: nth_append)
qed simp_all

lemma back_up_later:
  assumes "\<forall>c\<in>set x. \<not> is_sep c" and "dotdot \<le> length a"
  shows "back_up (a @ CHR ''/'' # x) dotdot (length a + length x) = length a"
proof (rule back_up_stop)
  show "\<forall>i. length a < i \<and> i \<le> length a + length x \<longrightarrow> \<not> is_sep ((a @ CHR ''/'' # x) ! i)"
  proof (intro allI impI)
    fix i
    assume i: "length a < i \<and> i \<le> length a + length x"
    then have "(a @ CHR ''/'' # x) ! i = x ! (i - length a - 1)"
      by (auto simp add: nth_append nth_Cons')
    moreover have "i - length a - 1 < length x"
      using i by linarith
    ultimately show "\<not> is_sep ((a @ CHR ''/'' # x) ! i)"
      using assms(1) by simp
  qed
  show "length a = dotdot \<or> is_sep ((a @ CHR ''/'' # x) ! length a)"
    by (simp add: is_sep_def)
qed (simp_all add: assms(2))

text \<open>
  The buffer of \<^verbatim>\<open>Clean\<close> holds a stack of elements: \<open>dots\<close>, the \<open>..\<close> elements a path that is not
  rooted starts with, then elements \<open>ps\<close> that are not \<open>..\<close>; \<open>dotdot\<close> is where \<open>dots\<close> ends.
\<close>

lemma buffer_pop:
  assumes "\<forall>e\<in>set (dots @ qs @ [x]). e \<noteq> [] \<and> CHR ''/'' \<notin> set e"
    and "rooted \<longrightarrow> dots = []"
    and "out = (if rooted then ''/'' else '''') @ strings_Join (dots @ qs @ [x]) ''/''"
    and "dotdot = (if rooted then 1 else length (strings_Join dots ''/''))"
  shows "take (back_up out dotdot (length out - 1)) out
           = (if rooted then ''/'' else '''') @ strings_Join (dots @ qs) ''/''"
proof -
  define pre where "pre = (if rooted then ''/'' else '''')"
  have x: "\<forall>c\<in>set x. \<not> is_sep c" "x \<noteq> []"
    using assms(1) by (auto simp add: is_sep_def)
  show ?thesis
  proof (cases "dots @ qs = []")
    case True
    then have out: "out = pre @ x" and dd: "dotdot = length pre"
      using assms(3,4) by (simp_all add: pre_def)
    have "back_up (pre @ x) (length pre) (length pre + length x - 1) = length pre"
      using x by (rule back_up_first)
    then show ?thesis
      using True by (simp add: out dd flip: pre_def)
  next
    case False
    define a where "a = pre @ strings_Join (dots @ qs) ''/''"
    have "strings_Join ((dots @ qs) @ [x]) ''/'' = strings_Join (dots @ qs) ''/'' @ ''/'' @ x"
      using False by (simp only: Join_snoc if_False)
    then have out: "out = a @ CHR ''/'' # x"
      using assms(3) by (simp add: a_def pre_def)
    have "length (strings_Join dots ''/'') \<le> length (strings_Join (dots @ qs) ''/'')"
      by (simp add: Join_append)
    then have dd: "dotdot \<le> length a"
      using assms(4) by (simp add: a_def pre_def)
    have "back_up (a @ CHR ''/'' # x) dotdot (length a + length x) = length a"
      using x(1) dd by (rule back_up_later)
    then show ?thesis
      by (simp add: out) (simp add: a_def pre_def)
  qed
qed

lemma buffer_longer:
  assumes "\<forall>e\<in>set (dots @ ps). e \<noteq> []"
    and "rooted \<longrightarrow> dots = []"
    and "out = (if rooted then ''/'' else '''') @ strings_Join (dots @ ps) ''/''"
    and "dotdot = (if rooted then 1 else length (strings_Join dots ''/''))"
  shows "dotdot < length out \<longleftrightarrow> ps \<noteq> []"
proof (cases "ps = []")
  case True
  then show ?thesis
    using assms(2,3,4) by auto
next
  case False
  have "\<forall>e\<in>set ps. e \<noteq> []"
    using assms(1) by simp
  then have "strings_Join ps ''/'' \<noteq> []"
    using False by (simp add: Join_empty)
  then show ?thesis
    using False assms(2,3,4) by (auto simp add: Join_append)
qed

lemma buffer_push:
  assumes "\<forall>e\<in>set st. e \<noteq> []"
    and "out = (if rooted then ''/'' else '''') @ strings_Join st ''/''"
  shows "(if rooted \<and> length out \<noteq> 1 \<or> \<not> rooted \<and> length out \<noteq> 0 then out @ ''/'' else out) @ e
           = (if rooted then ''/'' else '''') @ strings_Join (st @ [e]) ''/''"
proof (cases "st = []")
  case True
  show ?thesis
    unfolding assms(2) True by simp
next
  case False
  then have "strings_Join st ''/'' \<noteq> []"
    using assms(1) by (simp add: Join_empty)
  then have "rooted \<and> length out \<noteq> 1 \<or> \<not> rooted \<and> length out \<noteq> 0"
    unfolding assms(2) by (cases rooted) simp_all
  then have "(if rooted \<and> length out \<noteq> 1 \<or> \<not> rooted \<and> length out \<noteq> 0
              then out @ ''/'' else out) @ e = (out @ ''/'') @ e"
    by (simp only: if_True)
  also have "\<dots> = (if rooted then ''/'' else '''') @ strings_Join st ''/'' @ ''/'' @ e"
    by (simp only: assms(2) append_assoc)
  also have "strings_Join st ''/'' @ ''/'' @ e = strings_Join (st @ [e]) ''/''"
    using False by (simp only: Join_snoc if_False)
  finally show ?thesis .
qed

lemma element_ends:
  assumes "cs = [] \<or> is_sep (hd cs)"
  shows "takeWhile (\<lambda>d. \<not> is_sep d) cs = []" and "dropWhile (\<lambda>d. \<not> is_sep d) cs = cs"
proof -
  show "takeWhile (\<lambda>d. \<not> is_sep d) cs = []"
    using assms by (cases cs) simp_all
  show "dropWhile (\<lambda>d. \<not> is_sep d) cs = cs"
    using assms by (cases cs) simp_all
qed

lemma element_goes_on:
  assumes "takeWhile (\<lambda>d. \<not> is_sep d) cs = []"
  shows "cs = [] \<or> is_sep (hd cs)"
  using assms by (cases cs) (auto split: if_splits)

lemma resolve_dot: "resolve rooted st ''.'' = st"
  by (simp add: resolve_def)

lemma resolve_name: "e \<noteq> ''.'' \<Longrightarrow> e \<noteq> ''..'' \<Longrightarrow> resolve rooted st e = st @ [e]"
  by (simp add: resolve_def)

lemma resolve_pop:
  "ps \<noteq> [] \<Longrightarrow> last ps \<noteq> ''..'' \<Longrightarrow> resolve rooted (dots @ ps) ''..'' = dots @ butlast ps"
  by (simp add: resolve_def butlast_append)

lemma resolve_dots:
  "resolve False (replicate k ''..'') ''..'' = replicate (Suc k) ''..''"
  by (cases k) (simp_all add: resolve_def replicate_append_same)

lemma resolve_root: "resolve True [] ''..'' = []"
  by (simp add: resolve_def)

lemma clean_loop_sep:
  assumes "is_sep c"
  shows "clean_loop (c # cs) rooted out dotdot = clean_loop cs rooted out dotdot"
  by (subst clean_loop.simps) (rule if_P [OF assms])

lemma clean_loop_dot:
  assumes "\<not> is_sep c" and "c = CHR ''.'' \<and> (cs = [] \<or> is_sep (hd cs))"
  shows "clean_loop (c # cs) rooted out dotdot = clean_loop cs rooted out dotdot"
  by (subst clean_loop.simps, subst if_not_P [OF assms(1)]) (rule if_P [OF assms(2)])

lemma clean_loop_dotdot:
  assumes "\<not> is_sep c" and "\<not> (c = CHR ''.'' \<and> (cs = [] \<or> is_sep (hd cs)))"
    and "c = CHR ''.'' \<and> hd cs = CHR ''.'' \<and> (tl cs = [] \<or> is_sep (hd (tl cs)))"
  shows "clean_loop (c # cs) rooted out dotdot =
     (if dotdot < length out
      then clean_loop (tl cs) rooted (take (back_up out dotdot (length out - 1)) out) dotdot
      else if \<not> rooted
        then clean_loop (tl cs) rooted ((if out \<noteq> [] then out @ ''/'' else out) @ ''..'')
               (length ((if out \<noteq> [] then out @ ''/'' else out) @ ''..''))
        else clean_loop (tl cs) rooted out dotdot)"
  by (subst clean_loop.simps, subst if_not_P [OF assms(1)], subst if_not_P [OF assms(2)],
      subst if_P [OF assms(3)]) (simp only: Let_def)

lemma clean_loop_name:
  assumes "\<not> is_sep c" and "\<not> (c = CHR ''.'' \<and> (cs = [] \<or> is_sep (hd cs)))"
    and "\<not> (c = CHR ''.'' \<and> hd cs = CHR ''.'' \<and> (tl cs = [] \<or> is_sep (hd (tl cs))))"
  shows "clean_loop (c # cs) rooted out dotdot =
     clean_loop (dropWhile (\<lambda>d. \<not> is_sep d) cs) rooted
       ((if rooted \<and> length out \<noteq> 1 \<or> \<not> rooted \<and> length out \<noteq> 0
         then out @ ''/'' else out) @ c # takeWhile (\<lambda>d. \<not> is_sep d) cs) dotdot"
  by (subst clean_loop.simps, subst if_not_P [OF assms(1)], subst if_not_P [OF assms(2)],
      subst if_not_P [OF assms(3)]) (simp only: Let_def)

text \<open>
  The loop of \<^verbatim>\<open>Clean\<close> computes the stack of the elements it has read: started with the
  buffer of a stack, it ends with the buffer of that stack after the elements of the rest
  of the path.
\<close>

lemma clean_loop_elements:
  assumes "\<forall>e\<in>set ps. e \<noteq> [] \<and> CHR ''/'' \<notin> set e \<and> e \<noteq> ''..''"
    and "rooted \<longrightarrow> k = 0"
    and "out = (if rooted then ''/'' else '''') @ strings_Join (replicate k ''..'' @ ps) ''/''"
    and "dotdot = (if rooted then 1 else length (strings_Join (replicate k ''..'') ''/''))"
  shows "clean_loop p rooted out dotdot
           = (if rooted then ''/'' else '''')
               @ strings_Join (foldl (resolve rooted) (replicate k ''..'' @ ps) (elements p)) ''/''"
  using assms
proof (induction p rooted out dotdot arbitrary: k ps rule: clean_loop.induct)
  case (1 rooted out dotdot)
  then show ?case
    by (simp add: clean_loop.simps elements_Nil)
next
  case (2 c cs rooted out dotdot)
  note inv = "2.prems"
  have "e = ''..''" if "e \<in> set (replicate k ''..'')" for e
    using that by (simp only: in_set_replicate)
  then have dots: "\<forall>e\<in>set (replicate k ''..''). e \<noteq> [] \<and> CHR ''/'' \<notin> set e"
    by fastforce
  have nosep: "\<forall>e\<in>set (replicate k ''..'' @ ps). e \<noteq> [] \<and> CHR ''/'' \<notin> set e"
    using inv(1) dots by (simp only: set_append ball_Un) blast
  then have nonempty: "\<forall>e\<in>set (replicate k ''..'' @ ps). e \<noteq> []"
    by blast
  have root_dots: "rooted \<longrightarrow> replicate k ''..'' = []"
    using inv(2) by simp
  consider (sep) "is_sep c"
    | (dot) "\<not> is_sep c" "c = CHR ''.'' \<and> (cs = [] \<or> is_sep (hd cs))"
    | (dotdot) "\<not> is_sep c" "\<not> (c = CHR ''.'' \<and> (cs = [] \<or> is_sep (hd cs)))"
        "c = CHR ''.'' \<and> hd cs = CHR ''.'' \<and> (tl cs = [] \<or> is_sep (hd (tl cs)))"
    | (name) "\<not> is_sep c" "\<not> (c = CHR ''.'' \<and> (cs = [] \<or> is_sep (hd cs)))"
        "\<not> (c = CHR ''.'' \<and> hd cs = CHR ''.'' \<and> (tl cs = [] \<or> is_sep (hd (tl cs))))"
    by blast
  then show ?case
  proof cases
    case sep
    have "clean_loop (c # cs) rooted out dotdot = clean_loop cs rooted out dotdot"
      using sep by (rule clean_loop_sep)
    moreover have "elements (c # cs) = elements cs"
      using sep by (simp add: is_sep_def elements_skip_sep)
    ultimately show ?thesis
      using "2.IH"(1) [OF sep inv] by simp
  next
    case dot
    have "clean_loop (c # cs) rooted out dotdot = clean_loop cs rooted out dotdot"
      using dot by (rule clean_loop_dot)
    moreover have "elements (c # cs) = ''.'' # elements cs"
      using dot by (simp add: elements_first element_ends)
    ultimately show ?thesis
      using "2.IH"(2) [OF dot inv] by (simp add: resolve_dot)
  next
    case dotdot
    then obtain rest where cs: "cs = CHR ''.'' # rest" and rest: "rest = [] \<or> is_sep (hd rest)"
      by (cases cs) auto
    have "\<not> is_sep (CHR ''.'')"
      by (simp add: is_sep_def)
    then have els: "elements (c # cs) = ''..'' # elements rest"
      using dotdot(1,3) by (simp add: elements_first cs element_ends [OF rest])
    have tl: "tl cs = rest"
      by (simp add: cs)
    show ?thesis
    proof (cases "dotdot < length out")
      case True
      then have ps: "ps \<noteq> []"
        using buffer_longer [OF nonempty root_dots inv(3,4)] by simp
      then have split: "ps = butlast ps @ [last ps]"
        by simp
      have p1: "\<forall>e\<in>set (replicate k ''..'' @ butlast ps @ [last ps]). e \<noteq> [] \<and> CHR ''/'' \<notin> set e"
        using nosep split by simp
      have p3: "out = (if rooted then ''/'' else '''')
            @ strings_Join (replicate k ''..'' @ butlast ps @ [last ps]) ''/''"
        using inv(3) split by simp
      have pop: "take (back_up out dotdot (length out - 1)) out
            = (if rooted then ''/'' else '''') @ strings_Join (replicate k ''..'' @ butlast ps) ''/''"
        using p1 root_dots p3 inv(4) by (rule buffer_pop)
      have less: "\<forall>e\<in>set (butlast ps). e \<noteq> [] \<and> CHR ''/'' \<notin> set e \<and> e \<noteq> ''..''"
        using inv(1) by (auto dest: in_set_butlastD)
      have "clean_loop (c # cs) rooted out dotdot
              = clean_loop rest rooted (take (back_up out dotdot (length out - 1)) out) dotdot"
        using True by (simp only: clean_loop_dotdot [OF dotdot] if_True tl)
      also have "\<dots> = (if rooted then ''/'' else '''')
            @ strings_Join (foldl (resolve rooted) (replicate k ''..'' @ butlast ps) (elements rest))
                ''/''"
        using "2.IH"(3) [OF dotdot True less inv(2) pop inv(4)] by (simp add: tl)
      also have "replicate k ''..'' @ butlast ps = resolve rooted (replicate k ''..'' @ ps) ''..''"
        using ps inv(1) by (simp add: resolve_pop)
      finally show ?thesis
        by (simp add: els)
    next
      case False
      then have ps: "ps = []"
        using buffer_longer [OF nonempty root_dots inv(3,4)] by simp
      show ?thesis
      proof (cases rooted)
        case True
        then have k: "k = 0"
          using inv(2) by simp
        have "clean_loop (c # cs) rooted out dotdot = clean_loop rest rooted out dotdot"
          using False True by (simp only: clean_loop_dotdot [OF dotdot] if_False not_True_eq_False tl)
        then show ?thesis
          using "2.IH"(5) [OF dotdot False _ inv] True
          by (simp add: els tl ps k resolve_root)
      next
        case unrooted: False
        define x where "x = (if out \<noteq> [] then out @ ''/'' else out) @ ''..''"
        have out: "out = strings_Join (replicate k ''..'') ''/''"
          using inv(3) unrooted ps by simp
        have x: "x = strings_Join (replicate (Suc k) ''..'') ''/''"
        proof -
          have more: "replicate (Suc k) ''..'' = replicate k ''..'' @ [''..'']"
            by (simp add: replicate_append_same)
          have join: "strings_Join (replicate k ''..'' @ [''..'']) ''/''
                = (if replicate k ''..'' = [] then ''..''
                   else strings_Join (replicate k ''..'') ''/'' @ ''/'' @ ''..'')"
            by (rule Join_snoc)
          have "out \<noteq> [] \<longleftrightarrow> replicate k ''..'' \<noteq> []"
            unfolding out by (subst Join_empty) auto
          then show ?thesis
            unfolding more join x_def using out by auto
        qed
        have i1: "\<forall>e\<in>set ([] :: string list). e \<noteq> [] \<and> CHR ''/'' \<notin> set e \<and> e \<noteq> ''..''"
          by simp
        have i2: "rooted \<longrightarrow> Suc k = 0"
          using unrooted by simp
        have i3: "x = (if rooted then ''/'' else '''')
                        @ strings_Join (replicate (Suc k) ''..'' @ []) ''/''"
          using x unrooted by simp
        have i4: "length x = (if rooted then 1
                              else length (strings_Join (replicate (Suc k) ''..'') ''/''))"
          using x unrooted by simp
        have "clean_loop (c # cs) rooted out dotdot = clean_loop rest rooted x (length x)"
          using False unrooted
          by (simp only: clean_loop_dotdot [OF dotdot] if_True if_False not_False_eq_True tl x_def)
        also have "\<dots> = (if rooted then ''/'' else '''')
            @ strings_Join (foldl (resolve rooted) (replicate (Suc k) ''..'' @ []) (elements rest))
                ''/''"
          using "2.IH"(4) [OF dotdot False unrooted x_def i1 i2 i3 i4] by (simp add: tl)
        also have "replicate (Suc k) ''..'' @ [] = resolve rooted (replicate k ''..'' @ ps) ''..''"
          using unrooted ps by (simp only: resolve_dots append_Nil2)
        finally show ?thesis
          by (simp add: els)
      qed
    qed
  next
    case name
    define e where "e = c # takeWhile (\<lambda>d. \<not> is_sep d) cs"
    define x where "x = (if rooted \<and> length out \<noteq> 1 \<or> \<not> rooted \<and> length out \<noteq> 0
                         then out @ ''/'' else out)"
    have els: "elements (c # cs) = e # elements (dropWhile (\<lambda>d. \<not> is_sep d) cs)"
      using name(1) by (simp add: elements_first e_def)
    have e_dot: "e \<noteq> ''.''"
    proof
      assume "e = ''.''"
      then have "c = CHR ''.''" and "takeWhile (\<lambda>d. \<not> is_sep d) cs = []"
        by (simp_all add: e_def)
      then show False
        using name(2) element_goes_on by blast
    qed
    have e_dotdot: "e \<noteq> ''..''"
    proof
      assume "e = ''..''"
      then have c: "c = CHR ''.''" and tw: "takeWhile (\<lambda>d. \<not> is_sep d) cs = ''.''"
        by (simp_all add: e_def)
      then obtain rest where cs: "cs = CHR ''.'' # rest"
        and "takeWhile (\<lambda>d. \<not> is_sep d) rest = []"
        by (cases cs) (auto split: if_splits)
      then have "rest = [] \<or> is_sep (hd rest)"
        using element_goes_on by blast
      then show False
        using name(3) c cs by simp
    qed
    have e_ok: "e \<noteq> [] \<and> CHR ''/'' \<notin> set e"
      using name(1) by (auto simp add: e_def is_sep_def dest: set_takeWhileD)
    have i1: "\<forall>a\<in>set (ps @ [e]). a \<noteq> [] \<and> CHR ''/'' \<notin> set a \<and> a \<noteq> ''..''"
      using inv(1) e_ok e_dotdot by simp
    have "x @ e = (if rooted then ''/'' else '''')
                    @ strings_Join ((replicate k ''..'' @ ps) @ [e]) ''/''"
      unfolding x_def using nonempty inv(3) by (rule buffer_push)
    then have i3: "x @ c # takeWhile (\<lambda>d. \<not> is_sep d) cs = (if rooted then ''/'' else '''')
                    @ strings_Join (replicate k ''..'' @ ps @ [e]) ''/''"
      by (simp add: e_def)
    have "clean_loop (c # cs) rooted out dotdot
            = clean_loop (dropWhile (\<lambda>d. \<not> is_sep d) cs) rooted
                (x @ c # takeWhile (\<lambda>d. \<not> is_sep d) cs) dotdot"
      by (simp only: clean_loop_name [OF name] x_def)
    also have "\<dots> = (if rooted then ''/'' else '''')
            @ strings_Join (foldl (resolve rooted) (replicate k ''..'' @ ps @ [e])
                (elements (dropWhile (\<lambda>d. \<not> is_sep d) cs))) ''/''"
      using "2.IH"(6) [OF name x_def i1 inv(2) i3 inv(4)] .
    also have "replicate k ''..'' @ ps @ [e] = resolve rooted (replicate k ''..'' @ ps) e"
      using e_dot e_dotdot by (simp add: resolve_name)
    finally show ?thesis
      by (simp add: els)
  qed
qed

lemma filepath_Clean_nonempty: "filepath_Clean path \<noteq> []"
  by (simp add: filepath_Clean_def Let_def)

text \<open>\<^verbatim>\<open>Clean\<close> is the resolution of the elements of the path.\<close>

lemma filepath_Clean_elements:
  assumes "path \<noteq> []"
  shows "filepath_Clean path
           = render (is_rooted path) (foldl (resolve (is_rooted path)) [] (elements path))"
proof (cases "is_sep (hd path)")
  case True
  then have path: "path = CHR ''/'' # tl path"
    using assms by (cases path) (simp_all add: is_sep_def)
  have "clean_loop (tl path) True ''/'' 1
          = (if True then ''/'' else '''')
              @ strings_Join (foldl (resolve True) (replicate 0 ''..'' @ []) (elements (tl path))) ''/''"
    by (rule clean_loop_elements) simp_all
  moreover have "elements path = elements (tl path)"
    by (subst path) (rule elements_skip_sep)
  ultimately show ?thesis
    using True assms by (simp add: filepath_Clean_def render_def is_rooted_def Let_def)
next
  case False
  have "clean_loop path False [] 0
          = (if False then ''/'' else '''')
              @ strings_Join (foldl (resolve False) (replicate 0 ''..'' @ []) (elements path)) ''/''"
    by (rule clean_loop_elements) simp_all
  then show ?thesis
    using False assms by (simp add: filepath_Clean_def render_def is_rooted_def Let_def)
qed

lemma filepath_Join_lexical:
  assumes "dir \<noteq> []"
  shows "filepath_Join [dir, name] = lexical_join dir name"
proof -
  have "filepath_Join [dir, name] = filepath_Clean (dir @ CHR ''/'' # name)"
    using assms by simp
  moreover have "is_rooted (dir @ CHR ''/'' # name) = is_rooted dir"
    using assms by (simp add: is_rooted_def)
  moreover have "elements (dir @ CHR ''/'' # name) = elements dir @ elements name"
    by (rule elements_sep)
  ultimately show ?thesis
    by (simp add: filepath_Clean_elements lexical_join_def)
qed

lemma output_name_lexical:
  "output_name inFile outDir outSuffix outFormat =
     lexical_join (if outDir = [] then filepath_Dir inFile else outDir)
       (strings_TrimSuffix (filepath_Base inFile) (filepath_Ext inFile)
          @ outSuffix @ ''.'' @ outFormat)"
proof -
  have "(if outDir = [] then filepath_Dir inFile else outDir) \<noteq> []"
    by (simp add: filepath_Dir_def filepath_Clean_nonempty)
  then show ?thesis
    unfolding output_name_def Let_def by (rule filepath_Join_lexical)
qed

lemma foldl_resolve_plain:
  "list_all plain es \<Longrightarrow> foldl (resolve rooted) st es = st @ es"
  by (induction es arbitrary: st) (simp_all add: plain_def resolve_name)

lemma plain_path_nonempty: "plain_path path \<Longrightarrow> path \<noteq> []"
  by (auto simp add: plain_path_def elements_Nil)

lemma render_plain_path:
  assumes "plain_path path"
  shows "render (is_rooted path) (elements path) = path"
proof -
  have "\<forall>e\<in>set (elements path). e \<noteq> []"
    by (simp add: elements_def)
  moreover have "elements path \<noteq> []"
    using assms by (simp add: plain_path_def)
  ultimately have "strings_Join (elements path) ''/'' \<noteq> []"
    by (simp add: Join_empty)
  then have out: "(if is_rooted path then ''/'' else '''') @ strings_Join (elements path) ''/'' \<noteq> []"
    by simp
  have "path = (if is_rooted path then ''/'' else '''') @ strings_Join (elements path) ''/''"
    using assms by (simp add: plain_path_def)
  then show ?thesis
    unfolding render_def Let_def if_not_P [OF out] by (rule sym)
qed

lemma lexical_join_plain:
  assumes "plain_path dir" and "plain name"
  shows "lexical_join dir name = dir @ ''/'' @ name"
proof -
  define es where "es = elements dir"
  define pre where "pre = (if is_rooted dir then ''/'' else '''')"
  have es: "es \<noteq> []" "list_all plain es" and dir: "dir = pre @ strings_Join es ''/''"
    using assms(1) by (simp_all add: plain_path_def es_def pre_def)
  have name: "elements name = [name]" "list_all plain [name]"
    using assms(2) by (simp_all add: plain_def elements_one)
  have "foldl (resolve (is_rooted dir)) [] (es @ [name]) = es @ [name]"
    using es(2) name(2) by (subst foldl_resolve_plain) simp_all
  moreover have "strings_Join (es @ [name]) ''/'' = strings_Join es ''/'' @ ''/'' @ name"
    using es(1) by (simp only: Join_snoc if_False)
  ultimately have "lexical_join dir name = pre @ strings_Join es ''/'' @ ''/'' @ name"
    by (simp add: lexical_join_def name(1) render_def Let_def flip: es_def pre_def)
  then show ?thesis
    by (subst dir) simp
qed

lemma filepath_Clean_plain_path:
  assumes "plain_path dir"
  shows "filepath_Clean (dir @ ''/'') = dir"
proof -
  have ne: "dir \<noteq> []"
    using assms by (rule plain_path_nonempty)
  have "elements (dir @ CHR ''/'' # []) = elements dir @ elements []"
    by (rule elements_sep)
  then have els: "elements (dir @ ''/'') = elements dir"
    by (simp add: elements_Nil)
  have rooted: "is_rooted (dir @ ''/'') = is_rooted dir"
    using ne by (simp add: is_rooted_def)
  have "list_all plain (elements dir)"
    using assms by (simp add: plain_path_def)
  then have "foldl (resolve (is_rooted dir)) [] (elements dir) = elements dir"
    by (subst foldl_resolve_plain) simp_all
  then have "filepath_Clean (dir @ ''/'') = render (is_rooted dir) (elements dir)"
    by (subst filepath_Clean_elements) (simp_all add: els rooted)
  then show ?thesis
    using assms by (simp add: render_plain_path)
qed

lemma ext_scan_none:
  assumes "\<forall>c\<in>set xs. c \<noteq> CHR ''.'' \<and> \<not> is_sep c" and "rest = [] \<or> is_sep (hd rest)"
  shows "ext_scan (xs @ rest) acc = []"
  using assms by (induction xs arbitrary: acc) (cases rest; simp)+

lemma file_name_split:
  assumes "CHR ''.'' \<in> set base"
  shows "\<exists>e. base = without_extension base @ ''.'' @ e \<and> CHR ''.'' \<notin> set e"
proof -
  define e where "e = rev (takeWhile (\<lambda>c. c \<noteq> CHR ''.'') (rev base))"
  have "dropWhile (\<lambda>c. c \<noteq> CHR ''.'') (rev base) \<noteq> []"
    using assms by (simp add: dropWhile_eq_Nil_conv)
  moreover have "hd (dropWhile (\<lambda>c. c \<noteq> CHR ''.'') (rev base)) = CHR ''.''"
    using calculation hd_dropWhile [of "\<lambda>c. c \<noteq> CHR ''.''" "rev base"] by simp
  ultimately have dw: "dropWhile (\<lambda>c. c \<noteq> CHR ''.'') (rev base)
                        = CHR ''.'' # rev (without_extension base)"
    using assms by (cases "dropWhile (\<lambda>c. c \<noteq> CHR ''.'') (rev base)")
      (simp_all add: without_extension_def)
  have "rev base = rev e @ dropWhile (\<lambda>c. c \<noteq> CHR ''.'') (rev base)"
    by (simp add: e_def)
  then have "rev base = rev (without_extension base @ ''.'' @ e)"
    by (simp add: dw)
  then have "base = without_extension base @ ''.'' @ e"
    by (simp only: rev_is_rev_conv)
  moreover have "CHR ''.'' \<notin> set e"
    by (auto simp add: e_def dest: set_takeWhileD)
  ultimately show ?thesis
    by blast
qed

text \<open>
  A path that names a file: a base name \<open>base\<close> after nothing or after a prefix that ends
  with a separator.
\<close>

lemma filepath_Base_file:
  assumes "CHR ''/'' \<notin> set base" and "base \<noteq> []" and "pre = [] \<or> last pre = CHR ''/''"
  shows "filepath_Base (pre @ base) = base"
proof -
  have nosep: "\<not> is_sep c" if "c \<in> set (rev base)" for c
    using assms(1) that by (auto simp add: is_sep_def)
  have "rev base \<noteq> []"
    using assms(2) by simp
  then have dw: "dropWhile is_sep (rev base @ rev pre) = rev base @ rev pre"
    using nosep by (cases "rev base") auto
  have "rev pre = [] \<or> is_sep (hd (rev pre))"
    using assms(3) by (cases pre rule: rev_cases) (simp_all add: is_sep_def)
  then have "takeWhile (\<lambda>c. \<not> is_sep c) (rev pre) = []"
    by (rule element_ends)
  moreover have "takeWhile (\<lambda>c. \<not> is_sep c) (rev base @ rev pre)
                   = rev base @ takeWhile (\<lambda>c. \<not> is_sep c) (rev pre)"
    by (rule takeWhile_append2) (rule nosep)
  ultimately have tw: "takeWhile (\<lambda>c. \<not> is_sep c) (rev base @ rev pre) = rev base"
    by simp
  show ?thesis
    using assms(2) by (simp add: filepath_Base_def Let_def dw tw)
qed

lemma filepath_Dir_file:
  assumes "CHR ''/'' \<notin> set base" and "pre = [] \<or> last pre = CHR ''/''"
  shows "filepath_Dir (pre @ base) = filepath_Clean pre"
proof -
  have nosep: "\<not> is_sep c" if "c \<in> set (rev base)" for c
    using assms(1) that by (auto simp add: is_sep_def)
  have "dropWhile (\<lambda>c. \<not> is_sep c) (rev base @ rev pre)
          = dropWhile (\<lambda>c. \<not> is_sep c) (rev pre)"
    by (rule dropWhile_append2) (rule nosep)
  also have "\<dots> = rev pre"
    using assms(2) by (cases pre rule: rev_cases) (simp_all add: is_sep_def)
  finally show ?thesis
    by (simp add: filepath_Dir_def)
qed

lemma stem_file:
  assumes "CHR ''/'' \<notin> set base" and "base \<noteq> []" and "pre = [] \<or> last pre = CHR ''/''"
  shows "strings_TrimSuffix (filepath_Base (pre @ base)) (filepath_Ext (pre @ base))
           = without_extension base"
proof (cases "CHR ''.'' \<in> set base")
  case True
  then obtain e where base: "base = without_extension base @ ''.'' @ e"
    and e: "CHR ''.'' \<notin> set e"
    using file_name_split by blast
  have "CHR ''/'' \<notin> set e"
    using assms(1) by (subst (asm) base) simp
  then have "filepath_Ext ((pre @ without_extension base) @ ''.'' @ e) = ''.'' @ e"
    using e by (rule filepath_Ext_dot)
  then have "filepath_Ext (pre @ base) = ''.'' @ e"
    by (subst base) simp
  moreover have "strings_TrimSuffix (without_extension base @ ''.'' @ e) (''.'' @ e)
                   = without_extension base"
    by (rule TrimSuffix_append)
  ultimately show ?thesis
    using base by (simp add: filepath_Base_file [OF assms])
next
  case False
  then have "\<forall>c\<in>set (rev base). c \<noteq> CHR ''.'' \<and> \<not> is_sep c"
    using assms(1) by (auto simp add: is_sep_def)
  moreover have "rev pre = [] \<or> is_sep (hd (rev pre))"
    using assms(3) by (cases pre rule: rev_cases) (simp_all add: is_sep_def)
  ultimately have "ext_scan (rev base @ rev pre) [] = []"
    by (rule ext_scan_none)
  then have "filepath_Ext (pre @ base) = []"
    by (simp add: filepath_Ext_def)
  then show ?thesis
    using False by (simp add: filepath_Base_file [OF assms] strings_TrimSuffix_def
        without_extension_def)
qed

section \<open>The claims\<close>

text \<open>
  Claim C1, as the code has it. The pipeline has no validator: the sequence that is compiled
  is the detector's sequence itself, in the detector's order, neither sorted nor merged. It is
  the normalized sequence of the specification when the detector's sequence is already sorted
  by start with no segment starting before the previous one ends.
\<close>

theorem C1_detector_sequence_compiled:
  assumes "detector_output env inFile threshold minSilenceDuration padMs progressCallback (ext w)
             = Some (Inr segs)"
    and "segs \<noteq> []"
  shows "filter_argument (last (commands (snd (CondenseWithOptions env inFile outDir outSuffix
            outFormat threshold minSilenceDuration padMs progressCallback statusCallback w))))
          = filter_expression segs
       \<and> (sorted_by_start segs \<and> non_overlapping segs \<longrightarrow> spec_normalize segs = segs)"
  using assms by (simp add: CWO_filter_argument spec_normalize_id)

theorem C1_detector_sequence_compiled_witness:
  "filter_argument (last (commands (snd (CondenseWithOptions (bench speech) ''talk.wav'' ''''
       ''_condensed'' ''wav'' (1 / 2) 200 200 None None (bench_world (0 :: nat))))))
     = ''aselect='' @ [CHR 0x27] @ ''between(t,0.50,1.25)+between(t,2.00,3.50)'' @ [CHR 0x27]
         @ '',asetpts=N/SR/TB''
   \<and> spec_normalize speech = speech"
proof -
  have d: "detector_output (bench speech) ''talk.wav'' (1 / 2) 200 200
              (None :: (rat \<Rightarrow> nat \<Rightarrow> nat) option) (ext (bench_world (0 :: nat)))
            = Some (Inr speech)"
    by (simp add: detector_output_def bench_eval speech_def)
  have ne: "speech \<noteq> []"
    by (simp add: speech_def)
  have ok: "sorted_by_start speech \<and> non_overlapping speech"
    by (simp add: speech_def sorted_by_start_def)
  show ?thesis
    using C1_detector_sequence_compiled [OF d ne, of "''''" "''_condensed''" "''wav''" None] ok
    by (simp add: filter_expression_examples)
qed

text \<open>
  The claim as stated fails: a detector that returns the later segment first gets it compiled
  first. The compiled sequence is not sorted, and the expression differs from the one the
  normalized sequence would give.
\<close>

theorem C1_counterexample:
  "filter_argument (last (commands (snd (CondenseWithOptions
       (bench [\<lparr>SpeechStartAt = 2, SpeechEndAt = 3\<rparr>, \<lparr>SpeechStartAt = 1 / 2, SpeechEndAt = 1\<rparr>])
       ''talk.wav'' '''' ''_condensed'' ''wav'' (1 / 2) 200 200 None None
       (bench_world (0 :: nat))))))
     = ''aselect='' @ [CHR 0x27] @ ''between(t,2.00,3.00)+between(t,0.50,1.00)'' @ [CHR 0x27]
         @ '',asetpts=N/SR/TB''
   \<and> \<not> sorted_by_start
         [\<lparr>SpeechStartAt = 2, SpeechEndAt = 3\<rparr>, \<lparr>SpeechStartAt = 1 / 2, SpeechEndAt = 1\<rparr>]
   \<and> spec_normalize
         [\<lparr>SpeechStartAt = 2, SpeechEndAt = 3\<rparr>, \<lparr>SpeechStartAt = 1 / 2, SpeechEndAt = 1\<rparr>]
       = [\<lparr>SpeechStartAt = 1 / 2, SpeechEndAt = 1\<rparr>, \<lparr>SpeechStartAt = 2, SpeechEndAt = 3\<rparr>]
   \<and> filter_expression (spec_normalize
         [\<lparr>SpeechStartAt = 2, SpeechEndAt = 3\<rparr>, \<lparr>SpeechStartAt = 1 / 2, SpeechEndAt = 1\<rparr>])
       = ''aselect='' @ [CHR 0x27] @ ''between(t,0.50,1.00)+between(t,2.00,3.00)'' @ [CHR 0x27]
         @ '',asetpts=N/SR/TB''"
proof -
  have n: "spec_normalize
         [\<lparr>SpeechStartAt = 2, SpeechEndAt = 3\<rparr>, \<lparr>SpeechStartAt = 1 / 2, SpeechEndAt = 1\<rparr>]
       = [\<lparr>SpeechStartAt = 1 / 2, SpeechEndAt = 1\<rparr>, \<lparr>SpeechStartAt = 2, SpeechEndAt = 3\<rparr>]"
    by code_simp
  have s: "\<not> sorted_by_start
         [\<lparr>SpeechStartAt = 2, SpeechEndAt = 3\<rparr>, \<lparr>SpeechStartAt = 1 / 2, SpeechEndAt = 1\<rparr>]"
    by code_simp
  have r: "filter_argument (last (commands (snd (CondenseWithOptions
       (bench [\<lparr>SpeechStartAt = 2, SpeechEndAt = 3\<rparr>, \<lparr>SpeechStartAt = 1 / 2, SpeechEndAt = 1\<rparr>])
       ''talk.wav'' '''' ''_condensed'' ''wav'' (1 / 2) 200 200 None None
       (bench_world (0 :: nat))))))
     = filter_expression
         [\<lparr>SpeechStartAt = 2, SpeechEndAt = 3\<rparr>, \<lparr>SpeechStartAt = 1 / 2, SpeechEndAt = 1\<rparr>]"
    by (simp add: run_defs bench_eval filter_argument_def export_args_def)
  show ?thesis
    unfolding n r using s by (simp add: filter_expression_examples)
qed

text \<open>
  Claim C2. The events a batch delivers are, job after job in the order of the list, the
  events of that job alone, and these are decided by how the stages of the job end:
  \<open>pending\<close>, \<open>loading\<close>, \<open>detecting\<close>, \<open>exporting\<close> in this order up to the stage in which a
  collaborator fails, each once, the later ones skipped, and then exactly one terminal event:
  \<open>error\<close> with the error of the failing stage, or \<open>completed\<close> when no stage fails. The
  events of a job follow the terminal event of the job before it.
\<close>

theorem C2_status_sequence:
  "sink (snd (CondenseFiles env files options w))
     = sink w @ concat (batch_traces env files options (ext w))
   \<and> list_all2 is_job_trace files (batch_traces env files options (ext w))"
  by (simp add: CondenseFiles_batch_traces batch_traces_shape)

theorem C2_status_sequence_witness:
  "map (\<lambda>e. (FilePath (snd e), Status (snd e), Error (snd e)))
     (sink (snd (CondenseFiles (bench_full speech)
        [''a.wav'', ''missing.wav'', ''noise.wav'', ''silence.wav'', ''full.wav'']
        bench_options (bench_world []))))
     = [(''a.wav'', ''pending'', ''''), (''a.wav'', ''loading'', ''''),
        (''a.wav'', ''detecting'', ''''), (''a.wav'', ''exporting'', ''''),
        (''a.wav'', ''completed'', ''''),
        (''missing.wav'', ''pending'', ''''), (''missing.wav'', ''loading'', ''''),
        (''missing.wav'', ''error'',
         ''failed to decode audio file: ffmpeg decode error: exit status 1, stderr: missing.wav: No such file or directory''),
        (''noise.wav'', ''pending'', ''''), (''noise.wav'', ''loading'', ''''),
        (''noise.wav'', ''detecting'', ''''),
        (''noise.wav'', ''error'', ''speech detection failed: inference failed''),
        (''silence.wav'', ''pending'', ''''), (''silence.wav'', ''loading'', ''''),
        (''silence.wav'', ''detecting'', ''''),
        (''silence.wav'', ''error'', ''no speech detected in file: silence.wav''),
        (''full.wav'', ''pending'', ''''), (''full.wav'', ''loading'', ''''),
        (''full.wav'', ''detecting'', ''''), (''full.wav'', ''exporting'', ''''),
        (''full.wav'', ''error'',
         ''ffmpeg error: exit status 1, output: No space left on device'')]"
proof -
  have a: "sink (bench_world ([] :: events)) = []" "ext (bench_world ([] :: events)) = 0"
    by (simp_all add: bench_world_def)
  have b: "batch_traces (bench_full speech)
        [''a.wav'', ''missing.wav'', ''noise.wav'', ''silence.wav'', ''full.wav'']
        bench_options 0
      = [job_events ''a.wav'' Completed,
         job_events ''missing.wav'' (FailedLoading
           ''failed to decode audio file: ffmpeg decode error: exit status 1, stderr: missing.wav: No such file or directory''),
         job_events ''noise.wav'' (FailedDetecting ''speech detection failed: inference failed''),
         job_events ''silence.wav'' (FailedDetecting ''no speech detected in file: silence.wav''),
         job_events ''full.wav'' (FailedExporting
           ''ffmpeg error: exit status 1, output: No space left on device'')]"
    by (simp add: stage_results_def bench_full_def bench_eval speech_def export_args_def)
  note c = C2_status_sequence [of "bench_full speech"
        "[''a.wav'', ''missing.wav'', ''noise.wav'', ''silence.wav'', ''full.wav'']"
        bench_options "bench_world []", THEN conjunct1]
  show ?thesis
    unfolding c a b by (simp add: progress_event_def)
qed

text \<open>
  Claim C3. A batch never fails as a whole and never stops early: the call returns without
  a panic, and the terminal events it has delivered are one for each file of the list, in
  the order of the list, whatever jobs ended in \<open>error\<close>.
\<close>

theorem C3_batch_completes:
  "fst (CondenseFiles env files options w) = Done ()
   \<and> (\<exists>delivered. sink (snd (CondenseFiles env files options w)) = sink w @ delivered
         \<and> map (\<lambda>e. FilePath (snd e)) (filter is_terminal delivered) = files)"
proof -
  obtain traces where t: "fst (CondenseFiles env files options w) = Done ()"
      "sink (snd (CondenseFiles env files options w)) = sink w @ concat traces"
      "list_all2 is_job_trace files traces"
    using CondenseFiles_traces [of env files options w] by blast
  have "map (\<lambda>e. FilePath (snd e)) (filter is_terminal (concat traces)) = files"
    using t(3) by (rule traces_terminal)
  with t(1,2) show ?thesis by blast
qed

theorem C3_batch_completes_witness:
  "fst (CondenseFiles (bench speech) [''a.wav'', ''silence.wav'', ''b.wav''] bench_options
          (bench_world [])) = Done ()
   \<and> map (\<lambda>e. (FilePath (snd e), Status (snd e)))
        (filter is_terminal (sink (snd (CondenseFiles (bench speech)
           [''a.wav'', ''silence.wav'', ''b.wav''] bench_options (bench_world [])))))
       = [(''a.wav'', ''completed''), (''silence.wav'', ''error''), (''b.wav'', ''completed'')]"
proof -
  have b: "map (\<lambda>e. (FilePath (snd e), Status (snd e)))
        (filter is_terminal (sink (snd (CondenseFiles (bench speech)
           [''a.wav'', ''silence.wav'', ''b.wav''] bench_options (bench_world [])))))
       = [(''a.wav'', ''completed''), (''silence.wav'', ''error''), (''b.wav'', ''completed'')]"
    by (simp add: run_defs bench_eval speech_def EventsEmit_def is_terminal_def)
  show ?thesis
    using C3_batch_completes [of "bench speech" "[''a.wav'', ''silence.wav'', ''b.wav'']"
        bench_options "bench_world []"] b
    by simp
qed

text \<open>
  Claim C4. When the file decodes and the detector returns no segment, the job ends in
  \<open>error\<close> with the message \<open>no speech detected in file: \<close> and the path; its events are
  \<open>pending\<close>, \<open>loading\<close>, \<open>detecting\<close>, \<open>error\<close>, so it is never \<open>exporting\<close> or \<open>completed\<close>; the
  only command run for it is the decoding one, so no export is attempted; and the batch goes
  on with the next file.
\<close>

theorem C4_no_speech:
  assumes "detector_output env f (to_float32 env (VadThreshold options))
             (MinSilenceDuration options) (SpeechPaddingMs options) None (ext w) = Some (Inr [])"
  shows "\<exists>w1. CondenseFiles env (f # rest) options w = CondenseFiles env rest options w1
           \<and> sink w1 = sink w @
                [progress_event f ''pending'' '''', progress_event f ''loading'' '''',
                 progress_event f ''detecting'' '''',
                 progress_event f ''error'' (''no speech detected in file: '' @ f)]
           \<and> commands w1 = commands w @ [decode_args f 16000]
           \<and> default_logger w1 = default_logger w"
proof -
  define g where "g = (\<lambda>status. EventsEmit ''condense:progress''
                              \<lparr>FilePath = f, Status = status, Error = ''''\<rparr>)"
  define w0 where "w0 = w\<lparr>sink := EventsEmit ''condense:progress''
                  \<lparr>FilePath = f, Status = ''pending'', Error = ''''\<rparr> (sink w)\<rparr>"
  have det: "detector_output env f (to_float32 env (VadThreshold options))
             (MinSilenceDuration options) (SpeechPaddingMs options) None (ext w0) = Some (Inr [])"
    using assms by (simp add: w0_def)
  have "\<exists>w1 (ps :: rat list). CondenseWithOptions env f (OutputDir options) (OutputSuffix options)
        (OutputFormat options) (to_float32 env (VadThreshold options))
        (MinSilenceDuration options) (SpeechPaddingMs options) None (Some g) w0
        = (Done (Some (''no speech detected in file: '' @ f)), w1)
      \<and> commands w1 = commands w0 @ [decode_args f 16000]
      \<and> default_logger w1 = default_logger w0
      \<and> sink w1 = fold (\<lambda>a k. k) ps (g ''detecting'' (g ''loading'' (sink w0)))"
    by (rule CWO_silence [OF det or_noop_Some [of g] or_noop_None])
  then obtain w1 and ps :: "rat list" where run: "CondenseWithOptions env f (OutputDir options) (OutputSuffix options)
        (OutputFormat options) (to_float32 env (VadThreshold options))
        (MinSilenceDuration options) (SpeechPaddingMs options) None (Some g) w0
        = (Done (Some (''no speech detected in file: '' @ f)), w1)"
    and w1: "commands w1 = commands w0 @ [decode_args f 16000]"
      "default_logger w1 = default_logger w0"
      "sink w1 = fold (\<lambda>a k. k) ps (g ''detecting'' (g ''loading'' (sink w0)))"
    by blast
  define w2 where "w2 = w1\<lparr>sink := EventsEmit ''condense:progress''
        \<lparr>FilePath = f, Status = ''error'', Error = ''no speech detected in file: '' @ f\<rparr>
        (sink w1)\<rparr>"
  have "CondenseFiles env (f # rest) options w = CondenseFiles env rest options w2"
    using run by (simp add: g_def w0_def w2_def Let_def)
  moreover have "sink w2 = sink w @
                [progress_event f ''pending'' '''', progress_event f ''loading'' '''',
                 progress_event f ''detecting'' '''',
                 progress_event f ''error'' (''no speech detected in file: '' @ f)]"
    using w1(3) by (simp add: w2_def w0_def g_def fold_noop EventsEmit_def progress_event_def)
  moreover have "commands w2 = commands w @ [decode_args f 16000]"
    using w1(1) by (simp add: w2_def w0_def)
  moreover have "default_logger w2 = default_logger w"
    using w1(2) by (simp add: w2_def w0_def)
  ultimately show ?thesis by blast
qed

theorem C4_no_speech_witness:
  "sink (snd (CondenseFiles (bench speech) [''silence.wav''] bench_options (bench_world [])))
     = [progress_event ''silence.wav'' ''pending'' '''',
        progress_event ''silence.wav'' ''loading'' '''',
        progress_event ''silence.wav'' ''detecting'' '''',
        progress_event ''silence.wav'' ''error'' ''no speech detected in file: silence.wav'']
   \<and> commands (snd (CondenseFiles (bench speech) [''silence.wav''] bench_options (bench_world [])))
     = [[''-i'', ''silence.wav'', ''-f'', ''f32le'', ''-acodec'', ''pcm_f32le'', ''-ac'', ''1'',
         ''-ar'', ''16000'', ''-'']]"
proof -
  have det: "detector_output (bench speech) ''silence.wav''
      (to_float32 (bench speech) (VadThreshold bench_options))
      (MinSilenceDuration bench_options) (SpeechPaddingMs bench_options)
      (None :: (rat \<Rightarrow> events \<Rightarrow> events) option) (ext (bench_world ([] :: events)))
      = Some (Inr [])"
    by (simp add: detector_output_def bench_eval)
  obtain w1 where w1:
    "CondenseFiles (bench speech) [''silence.wav''] bench_options (bench_world [])
       = CondenseFiles (bench speech) [] bench_options w1"
    "sink w1 = sink (bench_world ([] :: events)) @
                [progress_event ''silence.wav'' ''pending'' '''',
                 progress_event ''silence.wav'' ''loading'' '''',
                 progress_event ''silence.wav'' ''detecting'' '''',
                 progress_event ''silence.wav'' ''error''
                   (''no speech detected in file: '' @ ''silence.wav'')]"
    "commands w1 = commands (bench_world ([] :: events)) @ [decode_args ''silence.wav'' 16000]"
    using C4_no_speech [OF det, of "[]"] by blast
  show ?thesis
    using w1 by (simp add: bench_world_def decode_args_16000)
qed

text \<open>
  Claim C5. For every input path, output directory, suffix and format the destination path
  is the output directory, or the directory of the input path when the output directory is
  empty, joined by \<^verbatim>\<open>filepath.Join\<close> with the file name made of the base name of the input path
  without its extension, the suffix, a dot and the format. That join is the path whose
  elements are those of the directory followed by those of the file name, with single
  separators and \<open>.\<close> and \<open>..\<close> elements resolved. For an input path that names a file \<open>base\<close>,
  the base name without the extension is \<open>base\<close> without its last dot and what follows it.
  So when the directory is a path of plain elements and the file name is a plain element,
  the destination path is literally the directory, a separator and the file name. The two
  examples of the specification come out as stated.
\<close>

theorem C5_output_name:
  "output_name inFile outDir outSuffix outFormat =
     filepath_Join
       [if outDir = [] then filepath_Dir inFile else outDir,
        strings_TrimSuffix (filepath_Base inFile) (filepath_Ext inFile)
          @ outSuffix @ ''.'' @ outFormat]
   \<and> output_name inFile outDir outSuffix outFormat =
       lexical_join (if outDir = [] then filepath_Dir inFile else outDir)
         (strings_TrimSuffix (filepath_Base inFile) (filepath_Ext inFile)
            @ outSuffix @ ''.'' @ outFormat)
   \<and> (CHR ''/'' \<notin> set base \<and> base \<noteq> [] \<and> (pre = [] \<or> last pre = CHR ''/'') \<longrightarrow>
        strings_TrimSuffix (filepath_Base (pre @ base)) (filepath_Ext (pre @ base))
          = without_extension base
        \<and> filepath_Dir (pre @ base) = filepath_Clean pre)
   \<and> (CHR ''/'' \<notin> set base \<and> base \<noteq> [] \<and> (pre = [] \<or> last pre = CHR ''/'')
        \<and> plain_path outDir
        \<and> plain (without_extension base @ outSuffix @ ''.'' @ outFormat) \<longrightarrow>
        output_name (pre @ base) outDir outSuffix outFormat
          = outDir @ ''/'' @ without_extension base @ outSuffix @ ''.'' @ outFormat)
   \<and> (CHR ''/'' \<notin> set base \<and> base \<noteq> [] \<and> plain_path dir
        \<and> plain (without_extension base @ outSuffix @ ''.'' @ outFormat) \<longrightarrow>
        output_name (dir @ ''/'' @ base) '''' outSuffix outFormat
          = dir @ ''/'' @ without_extension base @ outSuffix @ ''.'' @ outFormat)
   \<and> output_name ''/a/b/song.wav'' '''' ''_condensed'' ''mp3'' = ''/a/b/song_condensed.mp3''
   \<and> output_name ''/a/b/song.wav'' ''/out'' ''_c'' ''wav'' = ''/out/song_c.wav''"
proof (intro conjI impI)
  show "output_name inFile outDir outSuffix outFormat =
     filepath_Join
       [if outDir = [] then filepath_Dir inFile else outDir,
        strings_TrimSuffix (filepath_Base inFile) (filepath_Ext inFile)
          @ outSuffix @ ''.'' @ outFormat]"
    by (simp add: output_name_def Let_def)
  show "output_name inFile outDir outSuffix outFormat =
       lexical_join (if outDir = [] then filepath_Dir inFile else outDir)
         (strings_TrimSuffix (filepath_Base inFile) (filepath_Ext inFile)
            @ outSuffix @ ''.'' @ outFormat)"
    by (rule output_name_lexical)
  show "strings_TrimSuffix (filepath_Base (pre @ base)) (filepath_Ext (pre @ base))
          = without_extension base"
    if "CHR ''/'' \<notin> set base \<and> base \<noteq> [] \<and> (pre = [] \<or> last pre = CHR ''/'')"
    using that by (intro stem_file) simp_all
  show "filepath_Dir (pre @ base) = filepath_Clean pre"
    if "CHR ''/'' \<notin> set base \<and> base \<noteq> [] \<and> (pre = [] \<or> last pre = CHR ''/'')"
    using that by (intro filepath_Dir_file) simp_all
  show "output_name (pre @ base) outDir outSuffix outFormat
          = outDir @ ''/'' @ without_extension base @ outSuffix @ ''.'' @ outFormat"
    if h: "CHR ''/'' \<notin> set base \<and> base \<noteq> [] \<and> (pre = [] \<or> last pre = CHR ''/'')
        \<and> plain_path outDir
        \<and> plain (without_extension base @ outSuffix @ ''.'' @ outFormat)"
  proof -
    have stem: "strings_TrimSuffix (filepath_Base (pre @ base)) (filepath_Ext (pre @ base))
                  = without_extension base"
      using h by (intro stem_file) simp_all
    have "outDir \<noteq> []"
      using h by (intro plain_path_nonempty) simp
    then have "output_name (pre @ base) outDir outSuffix outFormat
                 = lexical_join outDir (without_extension base @ outSuffix @ ''.'' @ outFormat)"
      by (simp add: output_name_lexical stem)
    also have "\<dots> = outDir @ ''/'' @ without_extension base @ outSuffix @ ''.'' @ outFormat"
      using h by (intro lexical_join_plain) simp_all
    finally show ?thesis .
  qed
  show "output_name (dir @ ''/'' @ base) '''' outSuffix outFormat
          = dir @ ''/'' @ without_extension base @ outSuffix @ ''.'' @ outFormat"
    if h: "CHR ''/'' \<notin> set base \<and> base \<noteq> [] \<and> plain_path dir
        \<and> plain (without_extension base @ outSuffix @ ''.'' @ outFormat)"
  proof -
    have last: "dir @ ''/'' = [] \<or> last (dir @ ''/'') = CHR ''/''"
      by simp
    have stem: "strings_TrimSuffix (filepath_Base ((dir @ ''/'') @ base))
                  (filepath_Ext ((dir @ ''/'') @ base)) = without_extension base"
      using h last by (intro stem_file) simp_all
    have "filepath_Dir ((dir @ ''/'') @ base) = filepath_Clean (dir @ ''/'')"
      using h last by (intro filepath_Dir_file) simp_all
    also have "\<dots> = dir"
      using h by (intro filepath_Clean_plain_path) simp
    finally have "output_name ((dir @ ''/'') @ base) '''' outSuffix outFormat
                 = lexical_join dir (without_extension base @ outSuffix @ ''.'' @ outFormat)"
      using stem by (simp add: output_name_lexical)
    also have "\<dots> = dir @ ''/'' @ without_extension base @ outSuffix @ ''.'' @ outFormat"
      using h by (intro lexical_join_plain) simp_all
    finally show ?thesis
      by simp
  qed
  show "output_name ''/a/b/song.wav'' '''' ''_condensed'' ''mp3'' = ''/a/b/song_condensed.mp3''"
    by (rule output_name_examples)
  show "output_name ''/a/b/song.wav'' ''/out'' ''_c'' ''wav'' = ''/out/song_c.wav''"
    by (rule output_name_examples)
qed
theorem C5_output_name_witness:
  "output_name ''/a/b/song.wav'' ''/out/xy/..'' ''_c'' ''wav'' = ''/out/song_c.wav''
   \<and> strings_TrimSuffix (filepath_Base ''music/talk.v2.flac'') (filepath_Ext ''music/talk.v2.flac'')
       = ''talk.v2''
   \<and> filepath_Dir ''music/talk.v2.flac'' = ''music''
   \<and> output_name ''music/talk.v2.flac'' ''out/put'' ''_condensed'' ''wav''
       = ''out/put/talk.v2_condensed.wav''
   \<and> output_name ''/a/b/notes'' '''' ''_c'' ''tar.gz'' = ''/a/b/notes_c.tar.gz''"
proof -
  have "lexical_join (if ''/out/xy/..'' = [] then filepath_Dir ''/a/b/song.wav'' else ''/out/xy/..'')
          (strings_TrimSuffix (filepath_Base ''/a/b/song.wav'') (filepath_Ext ''/a/b/song.wav'')
             @ ''_c'' @ ''.'' @ ''wav'') = ''/out/song_c.wav''"
    by code_simp
  then have w1: "output_name ''/a/b/song.wav'' ''/out/xy/..'' ''_c'' ''wav'' = ''/out/song_c.wav''"
    by (simp only: C5_output_name [where inFile = "''/a/b/song.wav''"
          and outDir = "''/out/xy/..''" and outSuffix = "''_c''" and outFormat = "''wav''",
          THEN conjunct2, THEN conjunct1])
  have named: "CHR ''/'' \<notin> set ''talk.v2.flac'' \<and> ''talk.v2.flac'' \<noteq> []
        \<and> (''music/'' = [] \<or> last ''music/'' = CHR ''/'')"
    by simp
  have stem: "without_extension ''talk.v2.flac'' = ''talk.v2''"
    by code_simp
  have path: "''music/'' @ ''talk.v2.flac'' = ''music/talk.v2.flac''"
    by simp
  have music: "filepath_Clean ''music/'' = ''music''"
    by code_simp
  note c3 = C5_output_name [where base = "''talk.v2.flac''" and pre = "''music/''",
      THEN conjunct2, THEN conjunct2, THEN conjunct1, THEN mp, OF named]
  have w2: "strings_TrimSuffix (filepath_Base ''music/talk.v2.flac'')
              (filepath_Ext ''music/talk.v2.flac'') = ''talk.v2''"
    using c3 [THEN conjunct1] by (simp only: path stem)
  have w3: "filepath_Dir ''music/talk.v2.flac'' = ''music''"
    using c3 [THEN conjunct2] by (simp only: path music)
  have out: "plain_path ''out/put''"
    by code_simp
  have name: "plain (without_extension ''talk.v2.flac'' @ ''_condensed'' @ ''.'' @ ''wav'')"
    by code_simp
  have h4: "CHR ''/'' \<notin> set ''talk.v2.flac'' \<and> ''talk.v2.flac'' \<noteq> []
        \<and> (''music/'' = [] \<or> last ''music/'' = CHR ''/'')
        \<and> plain_path ''out/put''
        \<and> plain (without_extension ''talk.v2.flac'' @ ''_condensed'' @ ''.'' @ ''wav'')"
    using named out name by (simp only: simp_thms)
  have r4: "''out/put'' @ ''/'' @ without_extension ''talk.v2.flac'' @ ''_condensed'' @ ''.'' @ ''wav''
              = ''out/put/talk.v2_condensed.wav''"
    by (simp add: stem)
  have w4: "output_name ''music/talk.v2.flac'' ''out/put'' ''_condensed'' ''wav''
              = ''out/put/talk.v2_condensed.wav''"
    using C5_output_name [where base = "''talk.v2.flac''" and pre = "''music/''"
        and outDir = "''out/put''" and outSuffix = "''_condensed''" and outFormat = "''wav''",
        THEN conjunct2, THEN conjunct2, THEN conjunct2, THEN conjunct1, THEN mp, OF h4]
    by (simp only: path r4)
  have bare: "without_extension ''notes'' = ''notes''"
    by code_simp
  have h5: "CHR ''/'' \<notin> set ''notes'' \<and> ''notes'' \<noteq> [] \<and> plain_path ''/a/b''
        \<and> plain (without_extension ''notes'' @ ''_c'' @ ''.'' @ ''tar.gz'')"
    by code_simp
  have p5: "''/a/b'' @ ''/'' @ ''notes'' = ''/a/b/notes''"
    by simp
  have r5: "''/a/b'' @ ''/'' @ without_extension ''notes'' @ ''_c'' @ ''.'' @ ''tar.gz''
              = ''/a/b/notes_c.tar.gz''"
    by (simp add: bare)
  have w5: "output_name ''/a/b/notes'' '''' ''_c'' ''tar.gz'' = ''/a/b/notes_c.tar.gz''"
    using C5_output_name [where base = "''notes''" and dir = "''/a/b''"
        and outSuffix = "''_c''" and outFormat = "''tar.gz''",
        THEN conjunct2, THEN conjunct2, THEN conjunct2, THEN conjunct2, THEN conjunct1,
        THEN mp, OF h5]
    by (simp only: p5 r5)
  show ?thesis
    using w1 w2 w3 w4 w5 by (simp only: simp_thms)
qed

text \<open>
  Claim C6. For a non-empty segment sequence the expression is \<open>aselect\<close> over the sum of one
  \<open>between\<close> term per segment, in the order of the sequence, followed by the filter that
  renumbers the timestamps. Each bound is written with exactly two fraction digits and reads
  back as the bound rounded to hundredths, at most five milliseconds from the bound itself.
  Read as the encoder reads it, the expression keeps the time \<open>t\<close> exactly when \<open>t\<close> lies
  inside the interval, with its bounds so rounded, of some segment of the sequence.
\<close>

theorem C6_filter_expression:
  assumes "segs \<noteq> []"
  shows "filter_expression segs
           = ''aselect='' @ [CHR 0x27] @ strings_Join (map cut segs) ''+'' @ [CHR 0x27]
               @ '',asetpts=N/SR/TB''
       \<and> (\<forall>s\<in>set segs.
             cut s = ''between(t,'' @ fmt_2f (SpeechStartAt s) @ '','' @ fmt_2f (SpeechEndAt s)
                       @ '')''
           \<and> two_decimals (fmt_2f (SpeechStartAt s)) \<and> two_decimals (fmt_2f (SpeechEndAt s))
           \<and> read_decimal (fmt_2f (SpeechStartAt s)) = hundredths (SpeechStartAt s)
           \<and> read_decimal (fmt_2f (SpeechEndAt s)) = hundredths (SpeechEndAt s)
           \<and> \<bar>hundredths (SpeechStartAt s) - SpeechStartAt s\<bar> \<le> 1 / 200
           \<and> \<bar>hundredths (SpeechEndAt s) - SpeechEndAt s\<bar> \<le> 1 / 200)
       \<and> parse_filter (filter_expression segs)
           = map (\<lambda>s. (hundredths (SpeechStartAt s), hundredths (SpeechEndAt s))) segs
       \<and> (\<forall>t. keeps (filter_expression segs) t \<longleftrightarrow>
             (\<exists>s\<in>set segs. hundredths (SpeechStartAt s) \<le> t
                            \<and> t \<le> hundredths (SpeechEndAt s)))"
proof (intro conjI)
  show "filter_expression segs
           = ''aselect='' @ [CHR 0x27] @ strings_Join (map cut segs) ''+'' @ [CHR 0x27]
               @ '',asetpts=N/SR/TB''"
    by (simp add: filter_expression_def cuts_def)
  show "\<forall>s\<in>set segs.
             cut s = ''between(t,'' @ fmt_2f (SpeechStartAt s) @ '','' @ fmt_2f (SpeechEndAt s)
                       @ '')''
           \<and> two_decimals (fmt_2f (SpeechStartAt s)) \<and> two_decimals (fmt_2f (SpeechEndAt s))
           \<and> read_decimal (fmt_2f (SpeechStartAt s)) = hundredths (SpeechStartAt s)
           \<and> read_decimal (fmt_2f (SpeechEndAt s)) = hundredths (SpeechEndAt s)
           \<and> \<bar>hundredths (SpeechStartAt s) - SpeechStartAt s\<bar> \<le> 1 / 200
           \<and> \<bar>hundredths (SpeechEndAt s) - SpeechEndAt s\<bar> \<le> 1 / 200"
  proof (intro ballI conjI)
    fix s
    show "cut s = ''between(t,'' @ fmt_2f (SpeechStartAt s) @ '','' @ fmt_2f (SpeechEndAt s)
                       @ '')''"
      by (simp add: cut_def)
    show "two_decimals (fmt_2f (SpeechStartAt s))" "two_decimals (fmt_2f (SpeechEndAt s))"
      by (rule two_decimals_fmt_2f)+
    show "read_decimal (fmt_2f (SpeechStartAt s)) = hundredths (SpeechStartAt s)"
      "read_decimal (fmt_2f (SpeechEndAt s)) = hundredths (SpeechEndAt s)"
      by (rule read_decimal_fmt_2f)+
    show "\<bar>hundredths (SpeechStartAt s) - SpeechStartAt s\<bar> \<le> 1 / 200"
      "\<bar>hundredths (SpeechEndAt s) - SpeechEndAt s\<bar> \<le> 1 / 200"
      by (rule hundredths_near)+
  qed
  show "parse_filter (filter_expression segs)
           = map (\<lambda>s. (hundredths (SpeechStartAt s), hundredths (SpeechEndAt s))) segs"
    using assms by (rule parse_filter_expression)
  show "\<forall>t. keeps (filter_expression segs) t \<longleftrightarrow>
             (\<exists>s\<in>set segs. hundredths (SpeechStartAt s) \<le> t
                            \<and> t \<le> hundredths (SpeechEndAt s))"
    using keeps_filter_expression [OF assms] by blast
qed

theorem C6_filter_expression_witness:
  "filter_expression [\<lparr>SpeechStartAt = 1 / 8, SpeechEndAt = 3 / 8\<rparr>,
                      \<lparr>SpeechStartAt = 2, SpeechEndAt = 7 / 2\<rparr>]
     = ''aselect='' @ [CHR 0x27] @ ''between(t,0.12,0.38)+between(t,2.00,3.50)'' @ [CHR 0x27]
         @ '',asetpts=N/SR/TB''
   \<and> parse_filter (filter_expression [\<lparr>SpeechStartAt = 1 / 8, SpeechEndAt = 3 / 8\<rparr>,
                      \<lparr>SpeechStartAt = 2, SpeechEndAt = 7 / 2\<rparr>])
     = [(3 / 25, 19 / 50), (2, 7 / 2)]
   \<and> keeps (filter_expression [\<lparr>SpeechStartAt = 1 / 8, SpeechEndAt = 3 / 8\<rparr>,
                      \<lparr>SpeechStartAt = 2, SpeechEndAt = 7 / 2\<rparr>]) (1 / 4)
   \<and> \<not> keeps (filter_expression [\<lparr>SpeechStartAt = 1 / 8, SpeechEndAt = 3 / 8\<rparr>,
                      \<lparr>SpeechStartAt = 2, SpeechEndAt = 7 / 2\<rparr>]) 1"
proof -
  define segs where "segs = [\<lparr>SpeechStartAt = 1 / 8, SpeechEndAt = 3 / 8\<rparr>,
                      \<lparr>SpeechStartAt = 2, SpeechEndAt = 7 / 2\<rparr>]"
  have ne: "segs \<noteq> []"
    by (simp add: segs_def)
  note c6 = C6_filter_expression [OF ne]
  have a: "filter_expression segs
     = ''aselect='' @ [CHR 0x27] @ ''between(t,0.12,0.38)+between(t,2.00,3.50)'' @ [CHR 0x27]
         @ '',asetpts=N/SR/TB''"
    unfolding c6 [THEN conjunct1]
    by (simp add: segs_def cut_def fmt_2f_examples fmt_2f_ties)
  have b: "parse_filter (filter_expression segs) = [(3 / 25, 19 / 50), (2, 7 / 2)]"
    unfolding c6 [THEN conjunct2, THEN conjunct2, THEN conjunct1]
    by (simp add: segs_def hundredths_examples)
  have k: "keeps (filter_expression segs) t \<longleftrightarrow>
             (\<exists>s\<in>set segs. hundredths (SpeechStartAt s) \<le> t
                            \<and> t \<le> hundredths (SpeechEndAt s))" for t
    using c6 by blast
  have c: "keeps (filter_expression segs) (1 / 4)"
    unfolding k by (simp add: segs_def hundredths_examples)
  have d: "\<not> keeps (filter_expression segs) 1"
    unfolding k by (simp add: segs_def hundredths_examples)
  show ?thesis
    using a b c d unfolding segs_def by simp
qed

text \<open>
  Claim C7. The selection expression handed to the encoder depends on the detected segment
  sequence alone: two runs, whatever their files, options, callbacks, collaborators and
  states, whose detectors return the same non-empty sequence pass the same text after
  \<open>-af\<close>, the value of \<open>filter_expression\<close> at that sequence.
\<close>

theorem C7_filter_deterministic:
  assumes "detector_output env1 inFile1 threshold1 minSilenceDuration1 padMs1 progressCallback1
             (ext w1) = Some (Inr segs)"
    and "detector_output env2 inFile2 threshold2 minSilenceDuration2 padMs2 progressCallback2
             (ext w2) = Some (Inr segs)"
    and "segs \<noteq> []"
  shows "filter_argument (last (commands (snd (CondenseWithOptions env1 inFile1 outDir1
            outSuffix1 outFormat1 threshold1 minSilenceDuration1 padMs1 progressCallback1
            statusCallback1 w1)))) = filter_expression segs
       \<and> filter_argument (last (commands (snd (CondenseWithOptions env2 inFile2 outDir2
            outSuffix2 outFormat2 threshold2 minSilenceDuration2 padMs2 progressCallback2
            statusCallback2 w2)))) = filter_expression segs"
  using assms by (simp add: CWO_filter_argument)

theorem C7_filter_deterministic_witness:
  "filter_argument (last (commands (snd (CondenseWithOptions (bench speech) ''talk.wav'' ''''
       ''_condensed'' ''wav'' (1 / 2) 200 200 None None (bench_world (0 :: nat))))))
   = filter_argument (last (commands (snd (CondenseWithOptions (bench speech) ''b.wav'' ''/out''
       ''_c'' ''mp3'' (3 / 10) 100 0 (Some (\<lambda>p k. p # k)) (Some (\<lambda>s k. k))
       (bench_world ([] :: rat list)\<lparr>default_logger := discard_logger, ext := 7\<rparr>)))))"
proof -
  have d1: "detector_output (bench speech) ''talk.wav'' (1 / 2) 200 200
              (None :: (rat \<Rightarrow> nat \<Rightarrow> nat) option) (ext (bench_world (0 :: nat)))
            = Some (Inr speech)"
    by (simp add: detector_output_def bench_eval speech_def)
  have d2: "detector_output (bench speech) ''b.wav'' (3 / 10) 100 0
              (Some (\<lambda>p k. p # k))
              (ext (bench_world ([] :: rat list)\<lparr>default_logger := discard_logger, ext := 7\<rparr>))
            = Some (Inr speech)"
    by (simp add: detector_output_def bench_eval speech_def)
  have ne: "speech \<noteq> []"
    by (simp add: speech_def)
  show ?thesis
    using C7_filter_deterministic [OF d1 d2 ne, of "''''" "''_condensed''" "''wav''" None
        "''/out''" "''_c''" "''mp3''" "Some (\<lambda>s k. k)"]
    by simp
qed



text \<open>
  Claim C9. \<^verbatim>\<open>CondenseWithOptions\<close> accepts \<^verbatim>\<open>nil\<close> for either callback: a run with a \<^verbatim>\<open>nil\<close>
  callback is the run with a callback that does nothing, and no run calls a \<^verbatim>\<open>nil\<close>
  function value, neither in the function itself nor in the detector it configures.
\<close>

theorem C9_nil_callbacks:
  "CondenseWithOptions env inFile outDir outSuffix outFormat threshold minSilenceDuration padMs
       None statusCallback w
     = CondenseWithOptions env inFile outDir outSuffix outFormat threshold minSilenceDuration padMs
         (Some (\<lambda>p k. k)) statusCallback w
   \<and> CondenseWithOptions env inFile outDir outSuffix outFormat threshold minSilenceDuration padMs
       progressCallback None w
     = CondenseWithOptions env inFile outDir outSuffix outFormat threshold minSilenceDuration padMs
         progressCallback (Some (\<lambda>s k. k)) w
   \<and> fst (CondenseWithOptions env inFile outDir outSuffix outFormat threshold minSilenceDuration
            padMs progressCallback statusCallback w) \<noteq> Panic"
proof (intro conjI)
  show "CondenseWithOptions env inFile outDir outSuffix outFormat threshold minSilenceDuration padMs
       None statusCallback w
     = CondenseWithOptions env inFile outDir outSuffix outFormat threshold minSilenceDuration padMs
         (Some (\<lambda>p k. k)) statusCallback w"
    by (simp add: CondenseWithOptions_def or_noop_def)
  show "CondenseWithOptions env inFile outDir outSuffix outFormat threshold minSilenceDuration padMs
       progressCallback None w
     = CondenseWithOptions env inFile outDir outSuffix outFormat threshold minSilenceDuration padMs
         progressCallback (Some (\<lambda>s k. k)) w"
    by (simp add: CondenseWithOptions_def or_noop_def)
  show "fst (CondenseWithOptions env inFile outDir outSuffix outFormat threshold minSilenceDuration
            padMs progressCallback statusCallback w) \<noteq> Panic"
    by (rule CWO_no_panic)
qed

theorem C9_nil_callbacks_witness:
  "CondenseWithOptions (bench speech) ''talk.wav'' ''out'' ''_c'' ''mp3'' (1 / 2) 200 200
       None None (bench_world (0 :: nat))
     = CondenseWithOptions (bench speech) ''talk.wav'' ''out'' ''_c'' ''mp3'' (1 / 2) 200 200
         (Some (\<lambda>p k. k)) (Some (\<lambda>s k. k)) (bench_world (0 :: nat))
   \<and> fst (CondenseWithOptions (bench speech) ''talk.wav'' ''out'' ''_c'' ''mp3'' (1 / 2) 200 200
            None None (bench_world (0 :: nat))) = Done None
   \<and> fst (Detect (bench speech) (detector_config (1 / 2) 200 200 None)
            [1065353216, 3204448256] (bench_world (0 :: nat))) = Panic"
proof -
  have p: "fst (Detect (bench speech) (detector_config (1 / 2) 200 200 None)
            [1065353216, 3204448256] (bench_world (0 :: nat))) = Panic"
    by (simp add: Detect_def bench_sel config_callback invoke_def)
  have a: "CondenseWithOptions (bench speech) ''talk.wav'' ''out'' ''_c'' ''mp3'' (1 / 2) 200 200
       None None (bench_world (0 :: nat))
     = CondenseWithOptions (bench speech) ''talk.wav'' ''out'' ''_c'' ''mp3'' (1 / 2) 200 200
         (Some (\<lambda>p k. k)) None (bench_world (0 :: nat))"
    using C9_nil_callbacks [of "bench speech" "''talk.wav''" "''out''" "''_c''" "''mp3''"
        "1 / 2" 200 200 None "bench_world (0 :: nat)"]
    by blast
  have b: "CondenseWithOptions (bench speech) ''talk.wav'' ''out'' ''_c'' ''mp3'' (1 / 2) 200 200
       (Some (\<lambda>p k. k)) None (bench_world (0 :: nat))
     = CondenseWithOptions (bench speech) ''talk.wav'' ''out'' ''_c'' ''mp3'' (1 / 2) 200 200
         (Some (\<lambda>p k. k)) (Some (\<lambda>s k. k)) (bench_world (0 :: nat))"
    using C9_nil_callbacks [of "bench speech" "''talk.wav''" "''out''" "''_c''" "''mp3''"
        "1 / 2" 200 200 _ "bench_world (0 :: nat)" "Some (\<lambda>p k. k)"]
    by blast
  have c: "fst (CondenseWithOptions (bench speech) ''talk.wav'' ''out'' ''_c'' ''mp3'' (1 / 2) 200 200
            None None (bench_world (0 :: nat))) = Done None"
    by (simp add: run_defs bench_eval speech_def)
  show ?thesis using a b c p by simp
qed

text \<open>
  Claim C10. The lines from the detection step on leave the default logger as they found it,
  whatever logger the detector leaves installed: the discarding logger is in place for the
  call of the detector only. So a call of \<^verbatim>\<open>CondenseWithOptions\<close> that reached the detection
  step returns with the default logger it was called with, when the detection succeeds and
  when it fails; a failed detection, observed under the discarding logger, is what the
  function then reports.
\<close>

theorem C10_logger_restored:
  assumes "detector_output env inFile threshold minSilenceDuration padMs progressCallback (ext w)
             = Some r"
  shows "default_logger (snd (CondenseWithOptions env inFile outDir outSuffix outFormat threshold
            minSilenceDuration padMs progressCallback statusCallback w)) = default_logger w
       \<and> default_logger (snd (detect_and_export env
            (detector_config threshold minSilenceDuration padMs (or_noop progressCallback))
            inFile outDir outSuffix outFormat (or_noop statusCallback) samples w'))
           = default_logger w'
       \<and> (case r of
            Inl e \<Rightarrow> fst (CondenseWithOptions env inFile outDir outSuffix outFormat threshold
                minSilenceDuration padMs progressCallback statusCallback w)
              = Done (Some (''speech detection failed: '' @ e))
          | Inr segs \<Rightarrow> True)"
proof -
  obtain g where g: "or_noop statusCallback = Some g"
    using or_noop_is_Some by blast
  obtain h where h: "or_noop progressCallback = Some h"
    using or_noop_is_Some by blast
  have "fst (CondenseWithOptions env inFile outDir outSuffix outFormat threshold
                minSilenceDuration padMs progressCallback statusCallback w)
              = Done (Some (''speech detection failed: '' @ e))" if "r = Inl e" for e
    using assms that
    by (auto simp add: run_defs g h split: prod.splits sum.splits option.splits if_splits)
  moreover have "default_logger (snd (detect_and_export env
            (detector_config threshold minSilenceDuration padMs (or_noop progressCallback))
            inFile outDir outSuffix outFormat (or_noop statusCallback) samples w'))
           = default_logger w'"
    using detect_and_export_logger [of "detector_config threshold minSilenceDuration padMs (Some h)"
        h env inFile outDir outSuffix outFormat "Some g" samples w']
    by (simp add: g h config_callback) (metis prod.collapse)
  ultimately show ?thesis
    by (simp add: CWO_logger split: sum.splits)
qed

theorem C10_logger_restored_witness:
  "default_logger (snd (CondenseWithOptions (bench speech) ''noise.wav'' ''out'' ''_c'' ''mp3''
       (1 / 2) 200 200 None None (bench_world (0 :: nat)))) = TextLogger Stderr (Some LevelWarn)
   \<and> fst (CondenseWithOptions (bench speech) ''noise.wav'' ''out'' ''_c'' ''mp3''
       (1 / 2) 200 200 None None (bench_world (0 :: nat)))
       = Done (Some ''speech detection failed: inference failed'')
   \<and> fst (snd (snd (detect (bench speech) (detector_config (1 / 2) 200 200 None) [- 1]
        discard_logger (2 :: nat)))) = TextLogger Stderr (Some LevelDebug)"
proof -
  have det: "detector_output (bench speech) ''noise.wav'' (1 / 2) 200 200
               (None :: (rat \<Rightarrow> nat \<Rightarrow> nat) option) (ext (bench_world (0 :: nat)))
             = Some (Inl ''inference failed'')"
    by (simp add: detector_output_def bench_eval)
  have lg: "default_logger (bench_world (0 :: nat)) = TextLogger Stderr (Some LevelWarn)"
    by (simp add: bench_world_def)
  have left: "fst (snd (snd (detect (bench speech) (detector_config (1 / 2) 200 200 None) [- 1]
        discard_logger (2 :: nat)))) = TextLogger Stderr (Some LevelDebug)"
    by (simp add: bench_sel)
  note c10 = C10_logger_restored [OF det, of "''out''" "''_c''" "''mp3''" None]
  have a: "default_logger (snd (CondenseWithOptions (bench speech) ''noise.wav'' ''out'' ''_c''
       ''mp3'' (1 / 2) 200 200 None None (bench_world (0 :: nat))))
       = TextLogger Stderr (Some LevelWarn)"
    using c10 [THEN conjunct1] lg by simp
  have b: "fst (CondenseWithOptions (bench speech) ''noise.wav'' ''out'' ''_c'' ''mp3''
       (1 / 2) 200 200 None None (bench_world (0 :: nat)))
       = Done (Some ''speech detection failed: inference failed'')"
    using c10 [THEN conjunct2, THEN conjunct2] by simp
  show ?thesis
    using a b left by blast
qed

end
